theory Spec2Isabelle
  imports Complex_Main "HOL-Library.Char_ord" "HOL-Library.List_Lexorder"
    "HOL-Library.Signed_Division"
begin

section \<open>The SolarEdge input plugin: \<^verbatim>\<open>plugins/inputs/solaredge/solaredge.go\<close>\<close>

text \<open>
  The plugin is one method, \<^verbatim>\<open>(*SolarEdge).Gather\<close>, which calls into the Go standard
  library (\<^verbatim>\<open>time\<close>, \<^verbatim>\<open>net/url\<close>, \<^verbatim>\<open>net/http\<close>, \<^verbatim>\<open>encoding/json\<close>). The embedding has
  three layers:
  \<^item> the library functions whose behaviour the properties depend on, modelled from the
    Go standard library: \<^verbatim>\<open>time.LoadLocation\<close>, \<^verbatim>\<open>Time.In\<close>, \<^verbatim>\<open>Time.Add\<close>,
    \<^verbatim>\<open>Time.Format\<close> and \<^verbatim>\<open>time.ParseInLocation\<close> for the one layout the plugin uses,
    \<^verbatim>\<open>url.Values\<close>, the struct decoding of \<^verbatim>\<open>encoding/json\<close>, and the time-outs and
    redirects of \<^verbatim>\<open>http.Client\<close>;
  \<^item> the environment of one call, a record \<open>Env\<close>: the clock, the time-zone database,
    the remote server, and the results of \<^verbatim>\<open>url.Parse\<close> and \<^verbatim>\<open>URL.Query\<close>;
  \<^item> \<open>Gather\<close> itself, statement by statement, with the receiver and the accumulator
    passed in and returned, the error as a value, a panic as a result of its own, and a
    call that never returns as \<open>None\<close>.
  \<^verbatim>\<open>log.Printf\<close> is not modelled.
\<close>

subsection \<open>Package \<^verbatim>\<open>time\<close>\<close>

text \<open>
  A \<^verbatim>\<open>Duration\<close> is a count of nanoseconds. A \<^verbatim>\<open>*Location\<close> is a first zone offset
  (seconds east of UTC) and the zone transitions in ascending order, each the Unix
  second it starts at and the offset from then on; \<open>None\<close> is the nil pointer. A
  \<^verbatim>\<open>Time\<close> is an instant (Unix seconds and nanoseconds) and the location it is shown
  in. Seconds are unbounded integers: the instants of a wall clock are far from the ends
  of the 64-bit range.
\<close>

type_synonym Duration = int

type_synonym float64 = real

record Location =
  zoneFirst :: int
  tx :: "(int \<times> int) list"

record Time =
  unixSec :: int
  nsec :: int
  loc :: Location

definition Second :: Duration where
  "Second = 1000000000"

definition Hour :: Duration where
  "Hour = 3600 * Second"

definition UTC :: Location where
  "UTC = \<lparr>zoneFirst = 0, tx = []\<rparr>"

definition alpha :: int where
  "alpha = - (2 ^ 63)"

definition omega :: int where
  "omega = 2 ^ 63 - 1"

text \<open>
  \<^verbatim>\<open>(*Location).lookup\<close>: the offset in use at a Unix second, and the interval
  \<open>[start, end)\<close> in which it is in use.
\<close>

fun lookup_from :: "int \<Rightarrow> int \<Rightarrow> (int \<times> int) list \<Rightarrow> int \<Rightarrow> int \<times> int \<times> int" where
  "lookup_from off start [] sec = (off, start, omega)"
| "lookup_from off start ((when, off') # rest) sec =
     (if sec < when then (off, start, when) else lookup_from off' when rest sec)"

definition lookup :: "Location \<Rightarrow> int \<Rightarrow> int \<times> int \<times> int" where
  "lookup l sec = lookup_from (zoneFirst l) alpha (tx l) sec"

definition zoneOffset :: "Location \<Rightarrow> int \<Rightarrow> int" where
  "zoneOffset l sec = fst (lookup l sec)"

text \<open>
  \<^verbatim>\<open>Time.In\<close> panics on a nil location (\<open>None\<close> is the panic). \<^verbatim>\<open>Time.Add\<close> splits the
  duration with Go's truncating division.
\<close>

definition time_In :: "Time \<Rightarrow> Location option \<Rightarrow> Time option" where
  "time_In t l = (case l of None \<Rightarrow> None | Some l' \<Rightarrow> Some (t\<lparr>loc := l'\<rparr>))"

definition time_Add :: "Time \<Rightarrow> Duration \<Rightarrow> Time" where
  "time_Add t d =
     (let dsec = d sdiv 1000000000;
          ns = nsec t + d smod 1000000000
      in if ns \<ge> 1000000000 then t\<lparr>unixSec := unixSec t + dsec + 1, nsec := ns - 1000000000\<rparr>
         else if ns < 0 then t\<lparr>unixSec := unixSec t + dsec - 1, nsec := ns + 1000000000\<rparr>
         else t\<lparr>unixSec := unixSec t + dsec, nsec := ns\<rparr>)"

text \<open>
  The calendar. Days are counted from 0001-01-01 (day 0); 1970-01-01 is day 719162.
  \<open>absDate\<close> cuts the day count into cycles of 400, 100, 4 and 1 years, then finds the
  month from the day of the year; \<open>daysSinceEpoch\<close> goes back from a year to its first day.
\<close>

definition isLeap :: "int \<Rightarrow> bool" where
  "isLeap year = (year mod 4 = 0 \<and> (year mod 100 \<noteq> 0 \<or> year mod 400 = 0))"

definition daysBefore :: "int \<Rightarrow> int" where
  "daysBefore m =
     (if m \<le> 0 then 0 else if m = 1 then 31 else if m = 2 then 59 else if m = 3 then 90
      else if m = 4 then 120 else if m = 5 then 151 else if m = 6 then 181
      else if m = 7 then 212 else if m = 8 then 243 else if m = 9 then 273
      else if m = 10 then 304 else if m = 11 then 334 else 365)"

definition daysIn :: "int \<Rightarrow> int \<Rightarrow> int" where
  "daysIn m year =
     (if m = 2 \<and> isLeap year then 29 else daysBefore m - daysBefore (m - 1))"

definition yearDay :: "int \<Rightarrow> int \<times> int" where
  "yearDay d0 =
     (let n400 = d0 div 146097;
          d1 = d0 - 146097 * n400;
          c = d1 div 36524;
          n100 = c - c div 4;
          d2 = d1 - 36524 * n100;
          n4 = d2 div 1461;
          d3 = d2 - 1461 * n4;
          e = d3 div 365;
          n1 = e - e div 4
      in (400 * n400 + 100 * n100 + 4 * n4 + n1 + 1, d3 - 365 * n1))"

definition monthDay :: "bool \<Rightarrow> int \<Rightarrow> int \<times> int" where
  "monthDay leap yday =
     (if leap \<and> yday = 59 then (2, 29)
      else let day = (if leap \<and> yday > 59 then yday - 1 else yday);
               m = day div 31;
               e = daysBefore (m + 1)
           in if day \<ge> e then (m + 2, day - e + 1)
              else (m + 1, day - daysBefore m + 1))"

definition absDate :: "int \<Rightarrow> int \<times> int \<times> int" where
  "absDate d0 = (let (year, yday) = yearDay d0 in (year, monthDay (isLeap year) yday))"

definition daysSinceEpoch :: "int \<Rightarrow> int" where
  "daysSinceEpoch year =
     (let y = year - 1;
          n400 = y div 400;
          y1 = y - 400 * n400;
          n100 = y1 div 100;
          y2 = y1 - 100 * n100;
          n4 = y2 div 4;
          y3 = y2 - 4 * n4
      in 146097 * n400 + 36524 * n100 + 1461 * n4 + 365 * y3)"

text \<open>
  \<^verbatim>\<open>time.Date\<close> on fields that are in range (the parser has checked them): the wall
  clock reading in seconds, then the zone offset that belongs to it. The offset is
  looked up at the reading itself; when the instant that gives lies outside the interval
  of that offset, the offset is looked up again at that instant.
\<close>

definition wallSeconds :: "int \<Rightarrow> int \<Rightarrow> int \<Rightarrow> int \<Rightarrow> int \<Rightarrow> int \<Rightarrow> int" where
  "wallSeconds year month day hour minute sec =
     (daysSinceEpoch year + daysBefore (month - 1)
        + (if isLeap year \<and> month \<ge> 3 then 1 else 0) + (day - 1) - 719162) * 86400
      + hour * 3600 + minute * 60 + sec"

definition time_Date :: "int \<Rightarrow> int \<Rightarrow> int \<Rightarrow> int \<Rightarrow> int \<Rightarrow> int \<Rightarrow> int \<Rightarrow> Location \<Rightarrow> Time" where
  "time_Date year month day hour minute sec ns l =
     (let unix = wallSeconds year month day hour minute sec;
          (offset, start, end) = lookup l unix
      in if offset \<noteq> 0
         then (let utc = unix - offset;
                   offset' = (if utc < start \<or> utc \<ge> end then zoneOffset l utc else offset)
               in \<lparr>unixSec = unix - offset', nsec = ns, loc = l\<rparr>)
         else \<lparr>unixSec = unix, nsec = ns, loc = l\<rparr>)"

text \<open>
  \<^verbatim>\<open>Time.Format\<close> with the layout \<^verbatim>\<open>"2006-01-02 15:04:05"\<close>: year in at least four
  digits, month, day, hour, minute and second in at least two, of the wall clock in the
  time's location.
\<close>

definition digit :: "nat \<Rightarrow> char" where
  "digit u = char_of (48 + u)"

function decimal :: "nat \<Rightarrow> string" where
  "decimal u = (if u < 10 then [digit u] else decimal (u div 10) @ [digit (u mod 10)])"
  by pat_completeness auto
termination
  by (relation "measure id") auto

declare decimal.simps [simp del]

definition appendInt :: "int \<Rightarrow> nat \<Rightarrow> string" where
  "appendInt x width =
     (let ds = decimal (nat \<bar>x\<bar>)
      in (if x < 0 then ''-'' else []) @ replicate (width - length ds) (CHR ''0'') @ ds)"

text \<open>
  \<^verbatim>\<open>Time.abs\<close> is the wall clock reading of a time in its location, in seconds (here
  counted from the Unix epoch); \<^verbatim>\<open>Time.Year\<close> is the year of that reading and
  \<^verbatim>\<open>Time.UnixNano\<close> the instant in nanoseconds.
\<close>

definition time_abs :: "Time \<Rightarrow> int" where
  "time_abs t = unixSec t + zoneOffset (loc t) (unixSec t)"

definition time_Year :: "Time \<Rightarrow> int" where
  "time_Year t = fst (absDate (time_abs t div 86400 + 719162))"

definition time_UnixNano :: "Time \<Rightarrow> int" where
  "time_UnixNano t = unixSec t * 1000000000 + nsec t"

definition time_Format :: "Time \<Rightarrow> string" where
  "time_Format t =
     (let w = time_abs t;
          s = w mod 86400;
          (year, month, day) = absDate (w div 86400 + 719162)
      in appendInt year 4 @ ''-'' @ appendInt month 2 @ ''-'' @ appendInt day 2 @ '' ''
         @ appendInt (s div 3600) 2 @ '':'' @ appendInt (s mod 3600 div 60) 2 @ '':''
         @ appendInt (s mod 60) 2)"

text \<open>
  \<^verbatim>\<open>time.ParseInLocation\<close> with the same layout. The helpers are those of the
  package: \<^verbatim>\<open>isDigit\<close>, \<^verbatim>\<open>getnum\<close> (one or two digits, exactly two when \<open>fixed\<close>),
  \<^verbatim>\<open>atoi\<close>, \<^verbatim>\<open>skip\<close> (a space of the layout stands for any run of spaces of the value)
  and \<^verbatim>\<open>parseNanoseconds\<close> (a fraction after the seconds is read although the layout has
  none). The numbers read here have at most nine digits, so the overflow check of
  \<^verbatim>\<open>leadingInt\<close> is left out.
\<close>

definition isDigitChar :: "char \<Rightarrow> bool" where
  "isDigitChar c = (48 \<le> (of_char c :: nat) \<and> (of_char c :: nat) \<le> 57)"

definition isDigit :: "string \<Rightarrow> nat \<Rightarrow> bool" where
  "isDigit s i = (i < length s \<and> isDigitChar (s ! i))"

definition digitVal :: "char \<Rightarrow> int" where
  "digitVal c = int (of_char c) - 48"

definition getnum :: "string \<Rightarrow> bool \<Rightarrow> (int \<times> string) option" where
  "getnum s fixed =
     (if \<not> isDigit s 0 then None
      else if \<not> isDigit s 1 then (if fixed then None else Some (digitVal (s ! 0), drop 1 s))
      else Some (digitVal (s ! 0) * 10 + digitVal (s ! 1), drop 2 s))"

definition leadingInt :: "string \<Rightarrow> int \<times> string" where
  "leadingInt s =
     (foldl (\<lambda>x c. x * 10 + digitVal c) 0 (takeWhile isDigitChar s), dropWhile isDigitChar s)"

definition atoi :: "string \<Rightarrow> int option" where
  "atoi s =
     (let signed = (s \<noteq> [] \<and> (hd s = CHR ''-'' \<or> hd s = CHR ''+''));
          neg = (s \<noteq> [] \<and> hd s = CHR ''-'');
          (q, rem) = leadingInt (if signed then tl s else s)
      in if rem \<noteq> [] then None else Some (if neg then - q else q))"

definition skipChar :: "char \<Rightarrow> string \<Rightarrow> string option" where
  "skipChar c v = (if v = [] \<or> hd v \<noteq> c then None else Some (tl v))"

definition skipSpace :: "string \<Rightarrow> string option" where
  "skipSpace v =
     (if v \<noteq> [] \<and> hd v \<noteq> CHR '' '' then None else Some (dropWhile (\<lambda>c. c = CHR '' '') v))"

definition parseNanoseconds :: "string \<Rightarrow> nat \<Rightarrow> int option" where
  "parseNanoseconds v nbytes =
     (let n = min nbytes 10
      in case atoi (drop 1 (take n v)) of
           None \<Rightarrow> None
         | Some ns \<Rightarrow> Some (ns * 10 ^ (10 - n)))"

definition fraction :: "string \<Rightarrow> (int \<times> string) option" where
  "fraction v =
     (if length v \<ge> 2 \<and> (v ! 0 = CHR ''.'' \<or> v ! 0 = CHR '','') \<and> isDigit v 1
      then (let n = 1 + length (takeWhile isDigitChar (drop 1 v))
            in case parseNanoseconds v n of
                 None \<Rightarrow> None
               | Some ns \<Rightarrow> Some (ns, drop n v))
      else Some (0, v))"

definition parseClock :: "string \<Rightarrow> (int \<times> int \<times> int \<times> int) option" where
  "parseClock v =
     (case getnum v False of None \<Rightarrow> None | Some (hour, v1) \<Rightarrow>
      if hour < 0 \<or> 24 \<le> hour then None else
      case skipChar (CHR '':'') v1 of None \<Rightarrow> None | Some v2 \<Rightarrow>
      case getnum v2 True of None \<Rightarrow> None | Some (minute, v3) \<Rightarrow>
      if minute < 0 \<or> 60 \<le> minute then None else
      case skipChar (CHR '':'') v3 of None \<Rightarrow> None | Some v4 \<Rightarrow>
      case getnum v4 True of None \<Rightarrow> None | Some (sec, v5) \<Rightarrow>
      if sec < 0 \<or> 60 \<le> sec then None else
      case fraction v5 of None \<Rightarrow> None | Some (ns, v6) \<Rightarrow>
      if v6 \<noteq> [] then None else Some (hour, minute, sec, ns))"

definition parseCalendar :: "string \<Rightarrow> (int \<times> int \<times> int \<times> string) option" where
  "parseCalendar v =
     (if length v < 4 \<or> \<not> isDigit v 0 then None else
      case atoi (take 4 v) of None \<Rightarrow> None | Some year \<Rightarrow>
      case skipChar (CHR ''-'') (drop 4 v) of None \<Rightarrow> None | Some v1 \<Rightarrow>
      case getnum v1 True of None \<Rightarrow> None | Some (month, v2) \<Rightarrow>
      if month \<le> 0 \<or> 12 < month then None else
      case skipChar (CHR ''-'') v2 of None \<Rightarrow> None | Some v3 \<Rightarrow>
      case getnum v3 True of None \<Rightarrow> None | Some (day, v4) \<Rightarrow>
      case skipSpace v4 of None \<Rightarrow> None | Some v5 \<Rightarrow> Some (year, month, day, v5))"

text \<open>
  The errors \<open>Gather\<close> returns: the one it makes for a URL that does not parse, the
  error of \<^verbatim>\<open>http.Get\<close>, the one it makes for a status other than 200 (the URL, the
  status received and the status expected), the two kinds of error of the JSON decoder
  (no JSON value could be read; a value of the wrong JSON type for a Go field), and the
  \<^verbatim>\<open>*time.ParseError\<close> for a date string.
\<close>

record URL =
  Scheme :: string
  Host :: string
  Path :: string
  RawQuery :: string
  Fragment :: string

datatype error =
    InvalidServerURL string
  | TransportError string
  | UnexpectedStatus URL int int
  | SyntaxError
  | UnmarshalTypeError string string
  | ParseError string

definition time_ParseInLocation :: "string \<Rightarrow> Location \<Rightarrow> error + Time" where
  "time_ParseInLocation v l =
     (case parseCalendar v of None \<Rightarrow> Inl (ParseError v) | Some (year, month, day, v1) \<Rightarrow>
      case parseClock v1 of None \<Rightarrow> Inl (ParseError v) | Some (hour, minute, sec, ns) \<Rightarrow>
      if day < 1 \<or> day > daysIn month year then Inl (ParseError v)
      else Inr (time_Date year month day hour minute sec ns l))"

subsection \<open>Package \<^verbatim>\<open>net/url\<close>\<close>

text \<open>
  \<^verbatim>\<open>url.Values\<close> is a map from a key to the list of its values, kept here as an
  association list. \<^verbatim>\<open>Add\<close> appends to the list of the key; \<^verbatim>\<open>Encode\<close> writes
  \<^verbatim>\<open>key=value\<close> pairs joined by \<^verbatim>\<open>&\<close>, the keys in byte order, keys and values escaped
  by \<^verbatim>\<open>QueryEscape\<close>. The string form of a URL is not modelled: the request and the
  status error carry the URL value.
\<close>

type_synonym Values = "(string \<times> string list) list"

definition Values_lookup :: "Values \<Rightarrow> string \<Rightarrow> string list" where
  "Values_lookup v key = (case map_of v key of None \<Rightarrow> [] | Some vs \<Rightarrow> vs)"

definition Values_Add :: "Values \<Rightarrow> string \<Rightarrow> string \<Rightarrow> Values" where
  "Values_Add v key val =
     (if key \<in> set (map fst v)
      then map (\<lambda>(k, vs). if k = key then (k, vs @ [val]) else (k, vs)) v
      else v @ [(key, [val])])"

definition isAlnum :: "char \<Rightarrow> bool" where
  "isAlnum c =
     (let n = (of_char c :: nat)
      in (97 \<le> n \<and> n \<le> 122) \<or> (65 \<le> n \<and> n \<le> 90) \<or> (48 \<le> n \<and> n \<le> 57))"

definition shouldEscape :: "char \<Rightarrow> bool" where
  "shouldEscape c =
     (\<not> (isAlnum c \<or> c = CHR ''-'' \<or> c = CHR ''_'' \<or> c = CHR ''.'' \<or> c = CHR ''~''))"

definition upperhex :: "nat \<Rightarrow> char" where
  "upperhex n = ''0123456789ABCDEF'' ! n"

definition escapeByte :: "char \<Rightarrow> string" where
  "escapeByte c =
     (if c = CHR '' '' then ''+''
      else if shouldEscape c
      then [CHR ''%'', upperhex (of_char c div 16), upperhex (of_char c mod 16)]
      else [c])"

definition QueryEscape :: "string \<Rightarrow> string" where
  "QueryEscape s = concat (map escapeByte s)"

fun joinAmp :: "string list \<Rightarrow> string" where
  "joinAmp [] = []"
| "joinAmp [x] = x"
| "joinAmp (x # y # ys) = x @ ''&'' @ joinAmp (y # ys)"

definition Values_Encode :: "Values \<Rightarrow> string" where
  "Values_Encode v =
     joinAmp (concat (map (\<lambda>k. map (\<lambda>x. QueryEscape k @ ''='' @ QueryEscape x) (Values_lookup v k))
                          (sort (remdups (map fst v)))))"

subsection \<open>Package \<^verbatim>\<open>net/http\<close>\<close>

text \<open>
  A client has an overall time-out and, through its transport, a time-out for the
  response headers; zero means none, and a client without a transport uses the default
  transport, which has no response-header time-out. To one request the server answers,
  or the transport fails, or the server stays silent for ever. A response has its status
  code, the URL its \<^verbatim>\<open>Location\<close> header resolves to against the URL of the request
  (\<open>None\<close> without the header; a header that does not resolve is a failure of the
  transport), and its body. The body is the JSON value it starts with, or \<open>None\<close> when
  it does not start with one; the grammar of JSON text is not modelled.

  \<open>client_Do\<close> is \<^verbatim>\<open>(*http.Client).Do\<close> for a GET. An answer 301, 302, 303, 307 or 308
  with a \<^verbatim>\<open>Location\<close> is not handed to the caller: the client requests the new URL, up
  to ten requests in all (\<^verbatim>\<open>defaultCheckRedirect\<close>); any other answer, and a redirect
  without a \<^verbatim>\<open>Location\<close>, is the result. On a silent server a client with a time-out
  fails, and one without never returns (\<open>None\<close>). \<^verbatim>\<open>http.Get\<close> is
  \<^verbatim>\<open>DefaultClient.Get\<close>.
\<close>

datatype json =
    JNull
  | JBool bool
  | JNumber "int option" "float64 option"
  | JString string
  | JArray "json list"
  | JObject "(string \<times> json) list"

record http_Transport =
  ResponseHeaderTimeout :: Duration

record http_Client =
  Transport :: "http_Transport option"
  Timeout :: Duration

record Response =
  StatusCode :: int
  Location :: "URL option"
  Body :: "json option"

datatype reply = Silent | Fails string | Answers Response

definition http_DefaultClient :: http_Client where
  "http_DefaultClient = \<lparr>Transport = None, Timeout = 0\<rparr>"

definition hasTimeout :: "http_Client \<Rightarrow> bool" where
  "hasTimeout c =
     (Timeout c > 0 \<or> (case Transport c of None \<Rightarrow> False | Some tr \<Rightarrow> ResponseHeaderTimeout tr > 0))"

definition shouldRedirect :: "int \<Rightarrow> bool" where
  "shouldRedirect code = (code = 301 \<or> code = 302 \<or> code = 303 \<or> code = 307 \<or> code = 308)"

fun client_do :: "nat \<Rightarrow> http_Client \<Rightarrow> (URL \<Rightarrow> reply) \<Rightarrow> URL \<Rightarrow> (error + Response) option" where
  "client_do 0 c srv u = Some (Inl (TransportError ''stopped after 10 redirects''))"
| "client_do (Suc n) c srv u =
     (case srv u of
        Silent \<Rightarrow> if hasTimeout c then Some (Inl (TransportError ''timeout'')) else None
      | Fails msg \<Rightarrow> Some (Inl (TransportError msg))
      | Answers r \<Rightarrow>
          if shouldRedirect (StatusCode r)
          then (case Location r of
                  None \<Rightarrow> Some (Inr r)
                | Some u' \<Rightarrow> client_do n c srv u')
          else Some (Inr r))"

definition client_Do :: "http_Client \<Rightarrow> (URL \<Rightarrow> reply) \<Rightarrow> URL \<Rightarrow> (error + Response) option" where
  "client_Do c srv u = client_do 10 c srv u"

definition http_Get :: "(URL \<Rightarrow> reply) \<Rightarrow> URL \<Rightarrow> (error + Response) option" where
  "http_Get srv u = client_Do http_DefaultClient srv u"

text \<open>
  \<^verbatim>\<open>RealHTTPClient\<close>, the plugin's wrapper of a \<^verbatim>\<open>*http.Client\<close> (\<open>None\<close> is nil), with
  its three methods. \<^verbatim>\<open>MakeRequest\<close> dereferences the pointer: on nil it panics (\<open>Inl\<close>).
\<close>

datatype RealHTTPClient = RealHTTPClient "http_Client option"

fun HTTPClient :: "RealHTTPClient \<Rightarrow> http_Client option" where
  "HTTPClient (RealHTTPClient c) = c"

fun SetHTTPClient :: "RealHTTPClient \<Rightarrow> http_Client option \<Rightarrow> RealHTTPClient" where
  "SetHTTPClient (RealHTTPClient c) c' = RealHTTPClient c'"

fun MakeRequest :: "RealHTTPClient \<Rightarrow> (URL \<Rightarrow> reply) \<Rightarrow> URL \<Rightarrow> string + (error + Response) option" where
  "MakeRequest (RealHTTPClient None) srv req = Inl ''nil pointer dereference''"
| "MakeRequest (RealHTTPClient (Some c)) srv req = Inr (client_Do c srv req)"

subsection \<open>The response: \<^verbatim>\<open>Equipment\<close> and its decoding\<close>

record L1Data =
  AcCurrent :: float64
  AcVoltage :: float64
  AcFrequency :: float64
  ApparentPower :: float64
  ActivePower :: float64
  ReactivePower :: float64
  CosPhi :: float64

record Telemetry =
  Date :: string
  TotalActivePower :: float64
  DcVoltage :: float64
  GroundFaultResistance :: float64
  PowerLimit :: float64
  TotalEnergy :: float64
  Temperature :: float64
  InverterMode :: string
  L1Data :: L1Data

record Data =
  Count :: int
  Telemetries :: "Telemetry list"

record Equipment =
  Data :: Data

definition zero_L1Data :: L1Data where
  "zero_L1Data = \<lparr>AcCurrent = 0, AcVoltage = 0, AcFrequency = 0, ApparentPower = 0,
     ActivePower = 0, ReactivePower = 0, CosPhi = 0\<rparr>"

definition zero_Telemetry :: Telemetry where
  "zero_Telemetry = \<lparr>Date = [], TotalActivePower = 0, DcVoltage = 0,
     GroundFaultResistance = 0, PowerLimit = 0, TotalEnergy = 0, Temperature = 0,
     InverterMode = [], L1Data = zero_L1Data\<rparr>"

definition zero_Data :: Data where
  "zero_Data = \<lparr>Count = 0, Telemetries = []\<rparr>"

definition zero_Equipment :: Equipment where
  "zero_Equipment = \<lparr>Data = zero_Data\<rparr>"

text \<open>
  \<^verbatim>\<open>encoding/json\<close> decoding into these structs. A number carries what
  \<^verbatim>\<open>strconv.ParseInt\<close> and \<^verbatim>\<open>strconv.ParseFloat\<close> make of its literal (\<open>None\<close> when they
  fail). A decoder takes the JSON value and the Go value already there and returns the
  new Go value and the error, if any: \<^verbatim>\<open>null\<close> leaves a number, a string or a struct as
  it is and makes a slice nil; a JSON value of the wrong type leaves the Go value as it
  is and is an \<^verbatim>\<open>UnmarshalTypeError\<close>; the decoder goes on after such an error and
  returns the first one. The keys of an object are taken in order; a key selects the
  field whose name it equals, or equals after case folding (a to z to upper case, the
  Kelvin sign to K, the long s to S); a key that selects no field is skipped.

  An array is decoded into the slice that is already in the field: element \<open>i\<close> of the
  array is decoded into what the backing array of the slice holds at \<open>i\<close>, a zero value
  beyond it, and the slice is cut to the length of the array; what the backing array
  holds beyond that length stays there. So a slice is its elements together with the
  rest of its backing array (\<open>spare\<close>), which only a later array under the same key can
  bring back. An empty array gives a fresh empty slice.
\<close>

fun jsonKind :: "json \<Rightarrow> string" where
  "jsonKind JNull = ''null''"
| "jsonKind (JBool b) = ''bool''"
| "jsonKind (JNumber i f) = ''number''"
| "jsonKind (JString s) = ''string''"
| "jsonKind (JArray xs) = ''array''"
| "jsonKind (JObject kvs) = ''object''"

definition toUpper :: "char \<Rightarrow> char" where
  "toUpper c =
     (if 97 \<le> (of_char c :: nat) \<and> (of_char c :: nat) \<le> 122 then char_of (of_char c - 32 :: nat)
      else c)"

fun foldName :: "string \<Rightarrow> string" where
  "foldName (a # b # c # cs) =
     (if a = CHR 0xE2 \<and> b = CHR 0x84 \<and> c = CHR 0xAA then CHR ''K'' # foldName cs
      else if a = CHR 0xC5 \<and> b = CHR 0xBF then CHR ''S'' # foldName (c # cs)
      else toUpper a # foldName (b # c # cs))"
| "foldName [a, b] =
     (if a = CHR 0xC5 \<and> b = CHR 0xBF then ''S'' else [toUpper a, toUpper b])"
| "foldName [a] = [toUpper a]"
| "foldName [] = []"

definition selects :: "string \<Rightarrow> string \<Rightarrow> bool" where
  "selects key name = (key = name \<or> foldName key = foldName name)"

definition saveError :: "error option \<Rightarrow> error option \<Rightarrow> error option" where
  "saveError saved e = (case saved of None \<Rightarrow> e | Some e' \<Rightarrow> Some e')"

fun decode_float64 :: "json \<Rightarrow> float64 \<Rightarrow> float64 \<times> error option" where
  "decode_float64 JNull x = (x, None)"
| "decode_float64 (JNumber i (Some f)) x = (f, None)"
| "decode_float64 j x = (x, Some (UnmarshalTypeError (jsonKind j) ''float64''))"

fun decode_int :: "json \<Rightarrow> int \<Rightarrow> int \<times> error option" where
  "decode_int JNull x = (x, None)"
| "decode_int (JNumber (Some i) f) x = (i, None)"
| "decode_int j x = (x, Some (UnmarshalTypeError (jsonKind j) ''int''))"

fun decode_string :: "json \<Rightarrow> string \<Rightarrow> string \<times> error option" where
  "decode_string JNull x = (x, None)"
| "decode_string (JString s) x = (s, None)"
| "decode_string j x = (x, Some (UnmarshalTypeError (jsonKind j) ''string''))"

fun decode_object :: "(string \<Rightarrow> json \<Rightarrow> 'a \<Rightarrow> 'a \<times> error option) \<Rightarrow> (string \<times> json) list
    \<Rightarrow> 'a \<Rightarrow> 'a \<times> error option" where
  "decode_object field [] x = (x, None)"
| "decode_object field ((k, v) # kvs) x =
     (let (y, e) = field k v x;
          (z, e') = decode_object field kvs y
      in (z, saveError e e'))"

fun decode_struct :: "(string \<Rightarrow> json \<Rightarrow> 'a \<Rightarrow> 'a \<times> error option) \<Rightarrow> json \<Rightarrow> 'a
    \<Rightarrow> 'a \<times> error option" where
  "decode_struct field JNull x = (x, None)"
| "decode_struct field (JObject kvs) x = decode_object field kvs x"
| "decode_struct field j x = (x, Some (UnmarshalTypeError (jsonKind j) ''struct''))"

fun decode_elements :: "(json \<Rightarrow> 'a \<Rightarrow> 'a \<times> error option) \<Rightarrow> 'a \<Rightarrow> json list \<Rightarrow> 'a list
    \<Rightarrow> 'a list \<times> error option" where
  "decode_elements elem z [] backing = ([], None)"
| "decode_elements elem z (j # js) backing =
     (let (y, e) = elem j (case backing of [] \<Rightarrow> z | x # xs \<Rightarrow> x);
          (ys, e') = decode_elements elem z js (tl backing)
      in (y # ys, saveError e e'))"

fun decode_slice :: "(json \<Rightarrow> 'a \<Rightarrow> 'a \<times> error option) \<Rightarrow> 'a \<Rightarrow> json \<Rightarrow> 'a list \<times> 'a list
    \<Rightarrow> ('a list \<times> 'a list) \<times> error option" where
  "decode_slice elem z JNull (xs, spare) = (([], []), None)"
| "decode_slice elem z (JArray js) (xs, spare) =
     (if js = [] then (([], []), None)
      else (let (ys, e) = decode_elements elem z js (xs @ spare)
            in ((ys, drop (length js) (xs @ spare)), e)))"
| "decode_slice elem z j (xs, spare) =
     ((xs, spare), Some (UnmarshalTypeError (jsonKind j) ''slice''))"

definition field_L1Data :: "string \<Rightarrow> json \<Rightarrow> L1Data \<Rightarrow> L1Data \<times> error option" where
  "field_L1Data key v x =
     (if selects key ''acCurrent''
      then (let (y, e) = decode_float64 v (AcCurrent x) in (x\<lparr>AcCurrent := y\<rparr>, e))
      else if selects key ''acVoltage''
      then (let (y, e) = decode_float64 v (AcVoltage x) in (x\<lparr>AcVoltage := y\<rparr>, e))
      else if selects key ''acFrequency''
      then (let (y, e) = decode_float64 v (AcFrequency x) in (x\<lparr>AcFrequency := y\<rparr>, e))
      else if selects key ''apparentPower''
      then (let (y, e) = decode_float64 v (ApparentPower x) in (x\<lparr>ApparentPower := y\<rparr>, e))
      else if selects key ''activePower''
      then (let (y, e) = decode_float64 v (ActivePower x) in (x\<lparr>ActivePower := y\<rparr>, e))
      else if selects key ''reactivePower''
      then (let (y, e) = decode_float64 v (ReactivePower x) in (x\<lparr>ReactivePower := y\<rparr>, e))
      else if selects key ''cosPhi''
      then (let (y, e) = decode_float64 v (CosPhi x) in (x\<lparr>CosPhi := y\<rparr>, e))
      else (x, None))"

definition decode_L1Data :: "json \<Rightarrow> L1Data \<Rightarrow> L1Data \<times> error option" where
  "decode_L1Data = decode_struct field_L1Data"

definition field_Telemetry :: "string \<Rightarrow> json \<Rightarrow> Telemetry \<Rightarrow> Telemetry \<times> error option" where
  "field_Telemetry key v x =
     (if selects key ''date''
      then (let (y, e) = decode_string v (Date x) in (x\<lparr>Date := y\<rparr>, e))
      else if selects key ''totalActivePower''
      then (let (y, e) = decode_float64 v (TotalActivePower x) in (x\<lparr>TotalActivePower := y\<rparr>, e))
      else if selects key ''dcVoltage''
      then (let (y, e) = decode_float64 v (DcVoltage x) in (x\<lparr>DcVoltage := y\<rparr>, e))
      else if selects key ''groundFaultResistance''
      then (let (y, e) = decode_float64 v (GroundFaultResistance x)
            in (x\<lparr>GroundFaultResistance := y\<rparr>, e))
      else if selects key ''powerLimit''
      then (let (y, e) = decode_float64 v (PowerLimit x) in (x\<lparr>PowerLimit := y\<rparr>, e))
      else if selects key ''totalEnergy''
      then (let (y, e) = decode_float64 v (TotalEnergy x) in (x\<lparr>TotalEnergy := y\<rparr>, e))
      else if selects key ''temperature''
      then (let (y, e) = decode_float64 v (Temperature x) in (x\<lparr>Temperature := y\<rparr>, e))
      else if selects key ''inverterMode''
      then (let (y, e) = decode_string v (InverterMode x) in (x\<lparr>InverterMode := y\<rparr>, e))
      else if selects key ''L1Data''
      then (let (y, e) = decode_L1Data v (L1Data x) in (x\<lparr>L1Data := y\<rparr>, e))
      else (x, None))"

definition decode_Telemetry :: "json \<Rightarrow> Telemetry \<Rightarrow> Telemetry \<times> error option" where
  "decode_Telemetry = decode_struct field_Telemetry"

text \<open>
  \<open>Data\<close> has the one slice, so a \<open>Data\<close> and an \<open>Equipment\<close> are decoded together with
  the spare elements of \<open>Telemetries\<close>.
\<close>

definition field_Data :: "string \<Rightarrow> json \<Rightarrow> Data \<times> Telemetry list
    \<Rightarrow> (Data \<times> Telemetry list) \<times> error option" where
  "field_Data key v x =
     (if selects key ''count''
      then (let (y, e) = decode_int v (Count (fst x)) in ((fst x\<lparr>Count := y\<rparr>, snd x), e))
      else if selects key ''telemetries''
      then (let ((ys, spare), e) =
                  decode_slice decode_Telemetry zero_Telemetry v (Telemetries (fst x), snd x)
            in ((fst x\<lparr>Telemetries := ys\<rparr>, spare), e))
      else (x, None))"

definition decode_Data :: "json \<Rightarrow> Data \<times> Telemetry list \<Rightarrow> (Data \<times> Telemetry list) \<times> error option" where
  "decode_Data = decode_struct field_Data"

definition field_Equipment :: "string \<Rightarrow> json \<Rightarrow> Equipment \<times> Telemetry list
    \<Rightarrow> (Equipment \<times> Telemetry list) \<times> error option" where
  "field_Equipment key v x =
     (if selects key ''data''
      then (let ((y, spare), e) = decode_Data v (Data (fst x), snd x)
            in ((fst x\<lparr>Data := y\<rparr>, spare), e))
      else (x, None))"

definition decode_Equipment :: "json \<Rightarrow> Equipment \<times> Telemetry list
    \<Rightarrow> (Equipment \<times> Telemetry list) \<times> error option" where
  "decode_Equipment = decode_struct field_Equipment"

text \<open>
  \<^verbatim>\<open>json.NewDecoder(resp.Body).Decode(&target)\<close> on a zero \<open>target\<close>.
\<close>

definition json_Decode :: "json option \<Rightarrow> error + Equipment" where
  "json_Decode body =
     (case body of
        None \<Rightarrow> Inl SyntaxError
      | Some j \<Rightarrow>
          (case decode_Equipment j (zero_Equipment, []) of
             ((target, spare), None) \<Rightarrow> Inr target
           | ((target, spare), Some err) \<Rightarrow> Inl err))"

text \<open>
  The shape of the response, read off the declaration of \<^verbatim>\<open>Equipment\<close> (lines 30 to 53):
  the JSON name of every field with the shape of its type. A JSON value conforms to a
  shape when it is \<^verbatim>\<open>null\<close> or has the JSON type of the shape: a number that parses as
  an integer for \<^verbatim>\<open>int\<close>, a number that parses as a float for \<^verbatim>\<open>float64\<close>, a string for
  \<^verbatim>\<open>string\<close>, an array of conforming elements for a slice, and for a struct an object
  in which every value under a key that selects a field conforms to the shape of that
  field. No key has to be there.
\<close>

datatype shape = IntShape | FloatShape | StringShape | StructShape "(string \<times> shape) list"
  | SliceShape shape

fun conforms :: "shape \<Rightarrow> json \<Rightarrow> bool" where
  "conforms sh JNull = True"
| "conforms IntShape (JNumber i f) = (i \<noteq> None)"
| "conforms FloatShape (JNumber i f) = (f \<noteq> None)"
| "conforms StringShape (JString s) = True"
| "conforms (StructShape fs) (JObject kvs) =
     (\<forall>(k, v) \<in> set kvs. \<forall>(n, sh) \<in> set fs. selects k n \<longrightarrow> conforms sh v)"
| "conforms (SliceShape sh) (JArray js) = (\<forall>j \<in> set js. conforms sh j)"
| "conforms sh j = False"

definition shape_L1Data :: shape where
  "shape_L1Data = StructShape [(''acCurrent'', FloatShape), (''acVoltage'', FloatShape),
     (''acFrequency'', FloatShape), (''apparentPower'', FloatShape), (''activePower'', FloatShape),
     (''reactivePower'', FloatShape), (''cosPhi'', FloatShape)]"

definition shape_Telemetry :: shape where
  "shape_Telemetry = StructShape [(''date'', StringShape), (''totalActivePower'', FloatShape),
     (''dcVoltage'', FloatShape), (''groundFaultResistance'', FloatShape),
     (''powerLimit'', FloatShape), (''totalEnergy'', FloatShape), (''temperature'', FloatShape),
     (''inverterMode'', StringShape), (''L1Data'', shape_L1Data)]"

definition shape_Data :: shape where
  "shape_Data = StructShape [(''count'', IntShape), (''telemetries'', SliceShape shape_Telemetry)]"

definition shape_Equipment :: shape where
  "shape_Equipment = StructShape [(''data'', shape_Data)]"

subsection \<open>The collector and its environment\<close>

text \<open>
  The receiver \<^verbatim>\<open>*SolarEdge\<close>. Its \<open>client\<close> is the \<^verbatim>\<open>RealHTTPClient\<close> that \<^verbatim>\<open>init\<close>
  puts there; \<open>ResponseTimeout\<close> is the duration inside \<^verbatim>\<open>internal.Duration\<close>.
\<close>

record SolarEdge =
  Name :: string
  SiteID :: string
  SerialNumber :: string
  APIKey :: string
  TimeZone :: string
  client :: RealHTTPClient
  ResponseTimeout :: Duration

definition init :: SolarEdge where
  "init = \<lparr>Name = [], SiteID = [], SerialNumber = [], APIKey = [], TimeZone = [],
     client = RealHTTPClient None, ResponseTimeout = 5 * Second\<rparr>"

text \<open>
  What one call of \<open>Gather\<close> finds outside the collector: the clock (\<^verbatim>\<open>time.Now\<close> and the
  seconds \<^verbatim>\<open>time.Since(start)\<close> measures), the time-zone database and the local zone,
  what \<^verbatim>\<open>url.Parse\<close> makes of a string (\<open>None\<close> is its error) and \<^verbatim>\<open>URL.Query\<close> of a URL,
  and the server.
\<close>

record Env =
  now :: Time
  elapsed :: float64
  zoneinfo :: "string \<Rightarrow> Location option"
  localZone :: Location
  url_Parse :: "string \<Rightarrow> URL option"
  url_Query :: "URL \<Rightarrow> Values"
  server :: "URL \<Rightarrow> reply"

fun containsDotDot :: "string \<Rightarrow> bool" where
  "containsDotDot (a # b # cs) = ((a = CHR ''.'' \<and> b = CHR ''.'') \<or> containsDotDot (b # cs))"
| "containsDotDot cs = False"

text \<open>
  \<^verbatim>\<open>time.LoadLocation\<close> returns a location and an error; \<open>Gather\<close> drops the error, so
  only the location is kept: \<open>None\<close> is the nil location that comes with an error.
\<close>

definition time_LoadLocation :: "Env \<Rightarrow> string \<Rightarrow> Location option" where
  "time_LoadLocation env name =
     (if name = [] \<or> name = ''UTC'' then Some UTC
      else if name = ''Local'' then Some (localZone env)
      else if containsDotDot name \<or> hd name = CHR ''/'' \<or> hd name = CHR 0x5C then None
      else zoneinfo env name)"

text \<open>
  The accumulator is the list of the metrics added so far; \<^verbatim>\<open>AddFields\<close> appends one.
\<close>

datatype fieldValue = Float float64 | Str string

record Metric =
  measurement :: string
  fieldMap :: "string \<rightharpoonup> fieldValue"
  tagMap :: "string \<rightharpoonup> string"
  timestamp :: Time

type_synonym Accumulator = "Metric list"

definition AddFields :: "Accumulator \<Rightarrow> string \<Rightarrow> (string \<rightharpoonup> fieldValue) \<Rightarrow> (string \<rightharpoonup> string)
    \<Rightarrow> Time \<Rightarrow> Accumulator" where
  "AddFields acc m f tg t = acc @ [\<lparr>measurement = m, fieldMap = f, tagMap = tg, timestamp = t\<rparr>]"

subsection \<open>\<^verbatim>\<open>Gather\<close>\<close>

definition serverURL :: string where
  "serverURL = ''https://monitoringapi.solaredge.com/equipment''"

text \<open>The fifteen assignments to \<open>fields\<close> in the body of the loop.\<close>

definition telemetryFields :: "float64 \<Rightarrow> Telemetry \<Rightarrow> (string \<rightharpoonup> fieldValue)" where
  "telemetryFields responseTime telemetry =
     (Map.empty
        (''response_time'' \<mapsto> Float responseTime,
         ''totalActivePower'' \<mapsto> Float (TotalActivePower telemetry),
         ''dcVoltage'' \<mapsto> Float (DcVoltage telemetry),
         ''groundFaultResistance'' \<mapsto> Float (GroundFaultResistance telemetry),
         ''powerLimit'' \<mapsto> Float (PowerLimit telemetry),
         ''totalEnergy'' \<mapsto> Float (TotalEnergy telemetry),
         ''temperature'' \<mapsto> Float (Temperature telemetry),
         ''inverterMode'' \<mapsto> Str (InverterMode telemetry),
         ''acCurrent'' \<mapsto> Float (AcCurrent (L1Data telemetry)),
         ''acVoltage'' \<mapsto> Float (AcVoltage (L1Data telemetry)),
         ''acFrequency'' \<mapsto> Float (AcFrequency (L1Data telemetry)),
         ''apparentPower'' \<mapsto> Float (ApparentPower (L1Data telemetry)),
         ''activePower'' \<mapsto> Float (ActivePower (L1Data telemetry)),
         ''reactivePower'' \<mapsto> Float (ReactivePower (L1Data telemetry)),
         ''cosPhi'' \<mapsto> Float (CosPhi (L1Data telemetry))))"

text \<open>
  The loop over \<^verbatim>\<open>target.Data.Telemetries\<close>: a date that does not parse ends the call
  with the error; otherwise the metric is added at once and the loop goes on.
\<close>

fun Gather_loop :: "string \<Rightarrow> Location \<Rightarrow> float64 \<Rightarrow> Telemetry list \<Rightarrow> Accumulator
    \<Rightarrow> Accumulator \<times> error option" where
  "Gather_loop name l responseTime [] acc = (acc, None)"
| "Gather_loop name l responseTime (telemetry # rest) acc =
     (case time_ParseInLocation (Date telemetry) l of
        Inl err \<Rightarrow> (acc, Some err)
      | Inr date \<Rightarrow>
          Gather_loop name l responseTime rest
            (AddFields acc name (telemetryFields responseTime telemetry) Map.empty date))"

text \<open>
  A call ends by returning an error or nil (\<open>Returned\<close>) or by a panic; \<open>Gather\<close> gives
  the collector and the accumulator as the call leaves them, and \<open>None\<close> when the call
  never ends. The body of \<open>Gather\<close> is kept in the order of the source and cut into its
  blocks:
  \<^item> \<open>Gather_client\<close>, lines 106 to 115: the client is made if there is none;
  \<^item> in \<open>Gather\<close>, lines 117 to 124: the URL is put together and parsed, the location is
    loaded and its error dropped, and the present instant is put in the location;
  \<^item> \<open>Gather_request\<close>, lines 125 to 132: the window starts 144 hours before its end,
    the three query parameters are added and encoded;
  \<^item> \<open>Gather_fetch\<close>, lines 135 to 187: the GET goes through \<^verbatim>\<open>http.Get\<close>, a status
    other than 200 is an error, the body is decoded and the loop adds the metrics.
  Where the loop runs, \<^verbatim>\<open>Time.In\<close> has returned, so \<open>loc\<close> is not nil: \<open>Gather\<close> hands
  \<open>the l\<close> on as the location.
\<close>

datatype ending = Returned "error option" | Panicked string

definition Gather_client :: "SolarEdge \<Rightarrow> SolarEdge" where
  "Gather_client s =
     (if HTTPClient (client s) = None
      then s\<lparr>client := SetHTTPClient (client s)
             (Some \<lparr>Transport = Some \<lparr>ResponseHeaderTimeout = ResponseTimeout s\<rparr>,
                    Timeout = ResponseTimeout s\<rparr>)\<rparr>
      else s)"

definition Gather_request :: "Env \<Rightarrow> SolarEdge \<Rightarrow> URL \<Rightarrow> Time \<Rightarrow> URL" where
  "Gather_request env s requestURL endTime =
     (let startTime = time_Add endTime (- (6 * 24 * Hour));
          params = url_Query env requestURL;
          params = Values_Add params ''api_key'' (APIKey s);
          params = Values_Add params ''startTime'' (time_Format startTime);
          params = Values_Add params ''endTime'' (time_Format endTime)
      in requestURL\<lparr>RawQuery := Values_Encode params\<rparr>)"

definition Gather_fetch :: "Env \<Rightarrow> SolarEdge \<Rightarrow> Accumulator \<Rightarrow> Location \<Rightarrow> URL
    \<Rightarrow> (SolarEdge \<times> Accumulator \<times> ending) option" where
  "Gather_fetch env s acc l requestURL =
     (case http_Get (server env) requestURL of
        None \<Rightarrow> None
      | Some (Inl err) \<Rightarrow> Some (s, acc, Returned (Some err))
      | Some (Inr resp) \<Rightarrow>
          if StatusCode resp \<noteq> 200
          then Some (s, acc, Returned (Some (UnexpectedStatus requestURL (StatusCode resp) 200)))
          else (case json_Decode (Body resp) of
                  Inl err \<Rightarrow> Some (s, acc, Returned (Some err))
                | Inr target \<Rightarrow>
                    (let (acc', err) =
                           Gather_loop (Name s) l (elapsed env) (Telemetries (Data target)) acc
                     in Some (s, acc', Returned err))))"

definition equipmentURL :: "SolarEdge \<Rightarrow> string" where
  "equipmentURL s = serverURL @ ''/'' @ SiteID s @ ''/'' @ SerialNumber s @ ''/data''"

definition Gather :: "Env \<Rightarrow> SolarEdge \<Rightarrow> Accumulator \<Rightarrow> (SolarEdge \<times> Accumulator \<times> ending) option" where
  "Gather env s0 acc =
     (let s = Gather_client s0
      in case url_Parse env (equipmentURL s) of
           None \<Rightarrow> Some (s, acc, Returned (Some (InvalidServerURL (equipmentURL s))))
         | Some requestURL \<Rightarrow>
             (let l = time_LoadLocation env (TimeZone s)
              in case time_In (now env) l of
                   None \<Rightarrow> Some (s, acc, Panicked ''time: missing Location in call to Time.In'')
                 | Some endTime \<Rightarrow>
                     Gather_fetch env s acc (the l) (Gather_request env s requestURL endTime)))"

text \<open>
  The request of a call whose URL has parsed to \<open>u\<close> and whose location is \<open>l\<close>.
\<close>

abbreviation request :: "Env \<Rightarrow> SolarEdge \<Rightarrow> URL \<Rightarrow> Location \<Rightarrow> URL" where
  "request env s u l \<equiv> Gather_request env (Gather_client s) u ((now env)\<lparr>loc := l\<rparr>)"

text \<open>
  The collector over several calls, one environment for each: the collector as each
  call leaves it. A call that never ends is the last.
\<close>

fun Gather_calls :: "SolarEdge \<Rightarrow> Accumulator \<Rightarrow> Env list \<Rightarrow> SolarEdge list" where
  "Gather_calls s acc [] = []"
| "Gather_calls s acc (env # envs) =
     (case Gather env s acc of
        None \<Rightarrow> []
      | Some (s', acc', e) \<Rightarrow> s' # Gather_calls s' acc' envs)"

fun changes :: "RealHTTPClient \<Rightarrow> SolarEdge list \<Rightarrow> nat" where
  "changes c [] = 0"
| "changes c (s # ss) = (if client s = c then 0 else 1) + changes (client s) ss"

subsection \<open>A concrete environment\<close>

text \<open>
  An environment for the examples: the first instant of 2024 in UTC, a quarter of a
  second for the request, a zone database that knows one zone (New York, with its two
  transitions of 2024), a \<^verbatim>\<open>url.Parse\<close> that splits the host from the path, and a server
  that answers 200 with an empty object. \<open>answering\<close> is the environment with a server
  that gives one answer to every request, and \<open>redirecting\<close> the one with a server that
  sends every request on to another host, which answers 200.
\<close>

definition NewYork :: Location where
  "NewYork = \<lparr>zoneFirst = - 18000, tx = [(1710054000, - 14400), (1730613600, - 18000)]\<rparr>"

definition env0 :: Env where
  "env0 = \<lparr>now = \<lparr>unixSec = 1704067200, nsec = 7, loc = UTC\<rparr>,
     elapsed = 1 / 4,
     zoneinfo = (\<lambda>name. if name = ''America/New_York'' then Some NewYork else None),
     localZone = UTC,
     url_Parse = (\<lambda>s. Some \<lparr>Scheme = ''https'', Host = ''monitoringapi.solaredge.com'',
                              Path = drop 35 s, RawQuery = [], Fragment = []\<rparr>),
     url_Query = (\<lambda>u. []),
     server = (\<lambda>u. Answers \<lparr>StatusCode = 200, Location = None, Body = Some (JObject [])\<rparr>)\<rparr>"

definition sample :: "string \<Rightarrow> Telemetry" where
  "sample d = zero_Telemetry\<lparr>Date := d\<rparr>"

definition answering :: "int \<Rightarrow> json option \<Rightarrow> Env" where
  "answering code body =
     env0\<lparr>server := (\<lambda>u. Answers \<lparr>StatusCode = code, Location = None, Body = body\<rparr>)\<rparr>"

definition redirecting :: "int \<Rightarrow> json option \<Rightarrow> Env" where
  "redirecting code body =
     env0\<lparr>server := (\<lambda>u. if Host u = ''example.org''
                           then Answers \<lparr>StatusCode = 200, Location = None, Body = body\<rparr>
                           else Answers \<lparr>StatusCode = code,
                                  Location = Some (u\<lparr>Host := ''example.org''\<rparr>), Body = None\<rparr>)\<rparr>"

definition jsonSample :: "string \<Rightarrow> json" where
  "jsonSample d = JObject [(''date'', JString d)]"

definition jsonResponse :: "int \<Rightarrow> json list \<Rightarrow> json" where
  "jsonResponse n samples =
     JObject [(''data'', JObject [(''count'', JNumber (Some n) (Some (of_int n))),
                                  (''telemetries'', JArray samples)])]"

section \<open>Evaluating the library on the examples\<close>

lemmas parse_defs = time_ParseInLocation_def parseCalendar_def parseClock_def getnum_def isDigit_def
  isDigitChar_def digitVal_def atoi_def leadingInt_def skipChar_def skipSpace_def fraction_def
  parseNanoseconds_def

lemma parse_bad: "time_ParseInLocation ''bad'' l = Inl (ParseError ''bad'')"
  by (simp add: parse_defs)

lemma parseCalendar_newyear: "parseCalendar ''2024-01-01 00:00:00'' = Some (2024, 1, 1, ''00:00:00'')"
  by (simp add: parse_defs)

lemma parseClock_midnight: "parseClock ''00:00:00'' = Some (0, 0, 0, 0)"
  by (simp add: parse_defs)

lemma wallSeconds_newyear: "wallSeconds 2024 1 1 0 0 0 = 1704067200"
  by (simp add: wallSeconds_def daysSinceEpoch_def daysBefore_def isLeap_def)

lemma parse_newyear:
  "time_ParseInLocation ''2024-01-01 00:00:00'' UTC = Inr \<lparr>unixSec = 1704067200, nsec = 0, loc = UTC\<rparr>"
  by (simp add: time_ParseInLocation_def parseCalendar_newyear parseClock_midnight
      wallSeconds_newyear daysIn_def daysBefore_def isLeap_def time_Date_def lookup_def UTC_def)

subsection \<open>The loop and the call up to it\<close>

lemma loop_all_parse:
  assumes "\<And>t. t \<in> set ts \<Longrightarrow> \<exists>d. time_ParseInLocation (Date t) l = Inr d"
  shows "Gather_loop name l rt ts acc =
    (acc @ map (\<lambda>t. \<lparr>measurement = name, fieldMap = telemetryFields rt t, tagMap = Map.empty,
                      timestamp = projr (time_ParseInLocation (Date t) l)\<rparr>) ts, None)"
  using assms
proof (induction ts arbitrary: acc)
  case Nil
  show ?case by simp
next
  case (Cons t ts)
  from Cons.prems[of t] obtain d where d: "time_ParseInLocation (Date t) l = Inr d" by auto
  have rest: "\<And>t'. t' \<in> set ts \<Longrightarrow> \<exists>d. time_ParseInLocation (Date t') l = Inr d"
    using Cons.prems by simp
  show ?case by (simp add: d Cons.IH[OF rest] AddFields_def)
qed

lemma loop_first_bad:
  assumes "\<And>t. t \<in> set pre \<Longrightarrow> \<exists>d. time_ParseInLocation (Date t) l = Inr d"
    and "time_ParseInLocation (Date bad) l = Inl e"
  shows "Gather_loop name l rt (pre @ bad # post) acc =
    (acc @ map (\<lambda>t. \<lparr>measurement = name, fieldMap = telemetryFields rt t, tagMap = Map.empty,
                      timestamp = projr (time_ParseInLocation (Date t) l)\<rparr>) pre, Some e)"
  using assms(1)
proof (induction pre arbitrary: acc)
  case Nil
  show ?case by (simp add: assms(2))
next
  case (Cons t pre)
  from Cons.prems[of t] obtain d where d: "time_ParseInLocation (Date t) l = Inr d" by auto
  have rest: "\<And>t'. t' \<in> set pre \<Longrightarrow> \<exists>d. time_ParseInLocation (Date t') l = Inr d"
    using Cons.prems by simp
  show ?case by (simp add: d Cons.IH[OF rest] AddFields_def)
qed

lemma dom_telemetryFields:
  "dom (telemetryFields rt t) = {''response_time'', ''totalActivePower'', ''dcVoltage'',
     ''groundFaultResistance'', ''powerLimit'', ''totalEnergy'', ''temperature'', ''inverterMode'',
     ''acCurrent'', ''acVoltage'', ''acFrequency'', ''apparentPower'', ''activePower'',
     ''reactivePower'', ''cosPhi''}"
  unfolding telemetryFields_def by (simp only: dom_fun_upd dom_empty option.simps if_False) (simp add: insert_commute)

lemma client_Do_answer:
  "srv u = Answers r \<Longrightarrow> \<not> shouldRedirect (StatusCode r) \<Longrightarrow> client_Do c srv u = Some (Inr r)"
  by (simp add: client_Do_def eval_nat_numeral)

lemma client_Do_silent:
  "srv u = Silent \<Longrightarrow>
     client_Do c srv u = (if hasTimeout c then Some (Inl (TransportError ''timeout'')) else None)"
  by (simp add: client_Do_def eval_nat_numeral)

lemma not_redirect_200: "\<not> shouldRedirect 200"
  by (simp add: shouldRedirect_def)

lemma Gather_located:
  assumes "url_Parse env (equipmentURL (Gather_client s)) = Some u"
    and "time_LoadLocation env (TimeZone s) = Some l"
  shows "Gather env s acc =
     Gather_fetch env (Gather_client s) acc l
       (Gather_request env (Gather_client s) u ((now env)\<lparr>loc := l\<rparr>))"
proof -
  have tz: "TimeZone (Gather_client s) = TimeZone s" by (simp add: Gather_client_def)
  show ?thesis unfolding Gather_def Let_def by (simp add: assms tz time_In_def)
qed

lemma Gather_fetch_decoded:
  assumes "server env req = Answers resp" and "StatusCode resp = 200"
    and "json_Decode (Body resp) = Inr target"
  shows "Gather_fetch env s acc l req =
     Some (s, fst (Gather_loop (Name s) l (elapsed env) (Telemetries (Data target)) acc),
           Returned (snd (Gather_loop (Name s) l (elapsed env) (Telemetries (Data target)) acc)))"
proof -
  have "http_Get (server env) req = Some (Inr resp)"
    unfolding http_Get_def using assms(1,2) by (simp add: client_Do_answer not_redirect_200)
  then show ?thesis
    unfolding Gather_fetch_def by (simp add: assms(2,3) split: prod.split)
qed

lemma selects_refl: "selects k k" by (simp add: selects_def)

lemma decode_jsonSample: "decode_Telemetry (jsonSample d) zero_Telemetry = (sample d, None)"
  by (simp add: decode_Telemetry_def jsonSample_def field_Telemetry_def selects_refl sample_def
      saveError_def)

lemma not_telemetries_count: "\<not> selects ''telemetries'' ''count''"
  by (simp add: selects_def toUpper_def char_of_def bit_iff_odd)

lemma decode_jsonResponse2:
  "json_Decode (Some (jsonResponse n [jsonSample d1, jsonSample d2]))
     = Inr \<lparr>Data = \<lparr>Count = n, Telemetries = [sample d1, sample d2]\<rparr>\<rparr>"
  by (simp add: json_Decode_def jsonResponse_def decode_Equipment_def field_Equipment_def
      decode_Data_def field_Data_def selects_refl not_telemetries_count decode_jsonSample
      saveError_def zero_Equipment_def zero_Data_def)

lemma decode_jsonResponse1:
  "json_Decode (Some (jsonResponse n [jsonSample d1]))
     = Inr \<lparr>Data = \<lparr>Count = n, Telemetries = [sample d1]\<rparr>\<rparr>"
  by (simp add: json_Decode_def jsonResponse_def decode_Equipment_def field_Equipment_def
      decode_Data_def field_Data_def selects_refl not_telemetries_count decode_jsonSample
      saveError_def zero_Equipment_def zero_Data_def)

lemma decode_empty_object: "json_Decode (Some (JObject [])) = Inr zero_Equipment"
  by (simp add: json_Decode_def decode_Equipment_def)

lemma equipmentURL_client [simp]: "equipmentURL (Gather_client s) = equipmentURL s"
  by (simp add: equipmentURL_def Gather_client_def)

lemma url_Parse_answering:
  "url_Parse (answering code body) (equipmentURL init) =
     Some \<lparr>Scheme = ''https'', Host = ''monitoringapi.solaredge.com'', Path = ''/equipment///data'',
           RawQuery = [], Fragment = []\<rparr>"
  by (simp add: answering_def env0_def equipmentURL_def init_def serverURL_def)

lemma LoadLocation_init: "time_LoadLocation env (TimeZone init) = Some UTC"
  by (simp add: time_LoadLocation_def init_def)

lemma server_answering: "server (answering code body) req = Answers \<lparr>StatusCode = code, Location = None, Body = body\<rparr>"
  by (simp add: answering_def)

lemma Gather_decoded:
  assumes "url_Parse env (equipmentURL s) = Some u"
    and "time_LoadLocation env (TimeZone s) = Some l"
    and "server env (request env s u l) = Answers resp"
    and "StatusCode resp = 200"
    and "json_Decode (Body resp) = Inr target"
  shows "Gather env s acc =
     Some (Gather_client s,
           fst (Gather_loop (Name s) l (elapsed env) (Telemetries (Data target)) acc),
           Returned (snd (Gather_loop (Name s) l (elapsed env) (Telemetries (Data target)) acc)))"
proof -
  have "Gather env s acc = Gather_fetch env (Gather_client s) acc l (request env s u l)"
    using assms(1,2) by (simp add: Gather_located)
  also have "\<dots> = Some (Gather_client s,
           fst (Gather_loop (Name (Gather_client s)) l (elapsed env) (Telemetries (Data target)) acc),
           Returned (snd (Gather_loop (Name (Gather_client s)) l (elapsed env) (Telemetries (Data target)) acc)))"
    by (rule Gather_fetch_decoded[OF assms(3,4,5)])
  finally show ?thesis by (simp add: Gather_client_def)
qed

lemma parse_error_value: "time_ParseInLocation v l = Inl e \<Longrightarrow> e = ParseError v"
  by (auto simp: time_ParseInLocation_def split: option.splits prod.splits if_splits)

subsection \<open>The collector across calls\<close>

lemma Gather_collector:
  "Gather env s acc = Some (s', acc', e) \<Longrightarrow> s' = Gather_client s"
  unfolding Gather_def Gather_fetch_def Let_def
  by (auto split: option.splits sum.splits if_splits prod.splits)

lemma Gather_client_frame: "Gather_client s = s\<lparr>client := client (Gather_client s)\<rparr>"
  by (simp add: Gather_client_def)

lemma Gather_client_set: "HTTPClient (client (Gather_client s)) \<noteq> None"
  by (cases "client s") (auto simp: Gather_client_def)

lemma Gather_client_kept: "HTTPClient (client s) \<noteq> None \<Longrightarrow> Gather_client s = s"
  by (auto simp: Gather_client_def)

lemma changes_none:
  "HTTPClient (client s) \<noteq> None \<Longrightarrow> changes (client s) (Gather_calls s acc envs) = 0"
proof (induction envs arbitrary: s acc)
  case Nil
  show ?case by simp
next
  case (Cons env envs)
  show ?case
  proof (cases "Gather env s acc")
    case None
    then show ?thesis by simp
  next
    case (Some r)
    obtain s' acc' e where r: "r = (s', acc', e)" by (cases r)
    have s': "s' = s" using Gather_collector[of env s acc s' acc' e] Some r
      by (simp add: Gather_client_kept[OF Cons.prems])
    show ?thesis using Some r s' Cons.IH[OF Cons.prems] by simp
  qed
qed

lemma TimeZone_client [simp]: "TimeZone (Gather_client s) = TimeZone s"
  by (simp add: Gather_client_def)

lemma Gather_env0:
  assumes "TimeZone s = []"
  shows "Gather env0 s [] = Some (Gather_client s, [], Returned None)"
proof -
  have "Gather_fetch env0 s' [] l req = Some (s', [], Returned None)" for s' l req
    by (simp add: Gather_fetch_def http_Get_def client_Do_answer not_redirect_200 env0_def
        decode_empty_object zero_Equipment_def zero_Data_def)
  moreover have "url_Parse env0 x \<noteq> None" for x by (simp add: env0_def)
  ultimately show ?thesis
    unfolding Gather_def Let_def
    by (auto simp: assms time_In_def time_LoadLocation_def split: option.splits)
qed

subsection \<open>Digits written and read back\<close>

lemma of_char_digit: "u < 10 \<Longrightarrow> (of_char (digit u) :: nat) = 48 + u"
  by (simp add: digit_def)

lemma zero_digit: "CHR ''0'' = digit 0"
  by (simp add: digit_def char_of_def bit_iff_odd)

lemma isDigitChar_digit: "u < 10 \<Longrightarrow> isDigitChar (digit u)"
  by (simp add: isDigitChar_def of_char_digit)

lemma digitVal_digit: "u < 10 \<Longrightarrow> digitVal (digit u) = int u"
  by (simp add: digitVal_def of_char_digit)

lemma digit_not_mark:
  assumes "u < 10"
  shows "digit u \<noteq> CHR ''-''" "digit u \<noteq> CHR ''+''" "digit u \<noteq> CHR '' ''"
proof -
  have d: "(of_char (digit u) :: nat) = 48 + u" using assms by (rule of_char_digit)
  show "digit u \<noteq> CHR ''-''"
  proof
    assume "digit u = CHR ''-''"
    then have "(of_char (digit u) :: nat) = of_char (CHR ''-'')" by (rule arg_cong)
    then show False unfolding d by simp
  qed
  show "digit u \<noteq> CHR ''+''"
  proof
    assume "digit u = CHR ''+''"
    then have "(of_char (digit u) :: nat) = of_char (CHR ''+'')" by (rule arg_cong)
    then show False unfolding d by simp
  qed
  show "digit u \<noteq> CHR '' ''"
  proof
    assume "digit u = CHR '' ''"
    then have "(of_char (digit u) :: nat) = of_char (CHR '' '')" by (rule arg_cong)
    then show False unfolding d by simp
  qed
qed

lemma decimal_1: "u < 10 \<Longrightarrow> decimal u = [digit u]"
  by (simp add: decimal.simps)

lemma decimal_2: "10 \<le> u \<Longrightarrow> u < 100 \<Longrightarrow> decimal u = [digit (u div 10), digit (u mod 10)]"
  by (subst decimal.simps) (simp add: decimal_1)

lemma decimal_3:
  "100 \<le> u \<Longrightarrow> u < 1000 \<Longrightarrow> decimal u = [digit (u div 100), digit (u div 10 mod 10), digit (u mod 10)]"
  by (subst decimal.simps) (simp add: decimal_2 div_mult2_eq[symmetric])

lemma decimal_4:
  "1000 \<le> u \<Longrightarrow> u < 10000 \<Longrightarrow>
     decimal u = [digit (u div 1000), digit (u div 100 mod 10), digit (u div 10 mod 10), digit (u mod 10)]"
  by (subst decimal.simps) (simp add: decimal_3 div_mult2_eq[symmetric])

lemma appendInt_2:
  assumes "0 \<le> x" "x < 100"
  shows "appendInt x 2 = [digit (nat x div 10), digit (nat x mod 10)]"
proof (cases "nat x < 10")
  case True
  then show ?thesis using assms by (simp add: appendInt_def decimal_1 zero_digit)
next
  case False
  then show ?thesis using assms by (simp add: appendInt_def decimal_2)
qed

lemma appendInt_4:
  assumes "0 \<le> x" "x < 10000"
  shows "appendInt x 4 = [digit (nat x div 1000), digit (nat x div 100 mod 10),
                          digit (nat x div 10 mod 10), digit (nat x mod 10)]"
proof -
  consider "nat x < 10" | "10 \<le> nat x" "nat x < 100" | "100 \<le> nat x" "nat x < 1000"
    | "1000 \<le> nat x" by linarith
  then show ?thesis
  proof cases
    case 1
    then show ?thesis using assms by (simp add: appendInt_def decimal_1 zero_digit numeral_3_eq_3)
  next
    case 2
    then show ?thesis using assms by (simp add: appendInt_def decimal_2 zero_digit numeral_2_eq_2)
  next
    case 3
    then show ?thesis using assms by (simp add: appendInt_def decimal_3 zero_digit)
  next
    case 4
    then show ?thesis using assms by (simp add: appendInt_def decimal_4)
  qed
qed

lemma getnum_digits:
  assumes "a < 10" "b < 10"
  shows "getnum (digit a # digit b # rest) fixed = Some (int a * 10 + int b, rest)"
  using assms by (simp add: getnum_def isDigit_def isDigitChar_digit digitVal_digit)

lemma getnum_appendInt:
  assumes "0 \<le> x" "x < 100"
  shows "getnum (appendInt x 2 @ rest) fixed = Some (x, rest)"
proof -
  have a: "nat x div 10 < 10" and b: "nat x mod 10 < 10" using assms by auto
  have v: "int (nat x div 10) * 10 + int (nat x mod 10) = x" using assms(1) by (simp add: zdiv_int zmod_int)
  show ?thesis by (simp add: appendInt_2[OF assms] getnum_digits[OF a b] v)
qed

lemma atoi_digits:
  assumes "a < 10" "b < 10" "c < 10" "d < 10"
  shows "atoi [digit a, digit b, digit c, digit d]
      = Some (((int a * 10 + int b) * 10 + int c) * 10 + int d)"
  using assms
  by (simp add: atoi_def leadingInt_def isDigitChar_digit digitVal_digit digit_not_mark)

lemma four_digits_nat:
  fixes n :: nat
  shows "((n div 1000 * 10 + n div 100 mod 10) * 10 + n div 10 mod 10) * 10 + n mod 10 = n"
proof -
  have 1: "n div 10 div 10 = n div 100" "n div 100 div 10 = n div 1000"
    by (simp_all add: div_mult2_eq[symmetric])
  have a: "n div 10 * 10 + n mod 10 = n" by simp
  have b: "n div 100 * 10 + n div 10 mod 10 = n div 10" using 1(1) by (metis div_mult_mod_eq)
  have c: "n div 1000 * 10 + n div 100 mod 10 = n div 100" using 1(2) by (metis div_mult_mod_eq)
  show ?thesis by (simp only: a b c)
qed

lemma four_digits_value:
  fixes n :: nat
  shows "((int (n div 1000) * 10 + int (n div 100 mod 10)) * 10 + int (n div 10 mod 10)) * 10
           + int (n mod 10) = int n"
proof -
  have "int (((n div 1000 * 10 + n div 100 mod 10) * 10 + n div 10 mod 10) * 10 + n mod 10) = int n"
    by (simp only: four_digits_nat)
  then show ?thesis by (simp only: of_nat_add of_nat_mult of_nat_numeral)
qed

lemma parseCalendar_format:
  assumes y: "0 \<le> year" "year < 10000"
    and m: "1 \<le> month" "month \<le> 12"
    and d: "0 \<le> day" "day < 100"
    and c: "clock \<noteq> []" "hd clock \<noteq> CHR '' ''"
  shows "parseCalendar (appendInt year 4 @ ''-'' @ appendInt month 2 @ ''-'' @ appendInt day 2
            @ '' '' @ clock) = Some (year, month, day, clock)"
proof -
  let ?n = "nat year"
  have n: "?n < 10000" using y by simp
  have ds: "?n div 1000 < 10" "?n div 100 mod 10 < 10" "?n div 10 mod 10 < 10" "?n mod 10 < 10"
    using n by auto
  have "int ?n = year" using y(1) by simp
  then have yv: "((int (?n div 1000) * 10 + int (?n div 100 mod 10)) * 10 + int (?n div 10 mod 10)) * 10
           + int (?n mod 10) = year"
    by (simp only: four_digits_value)
  have at: "atoi [digit (?n div 1000), digit (?n div 100 mod 10), digit (?n div 10 mod 10),
                  digit (?n mod 10)] = Some year"
    by (simp only: atoi_digits[OF ds] yv)
  have m': "0 \<le> month" "month < 100" using m by auto
  have dw: "dropWhile (\<lambda>c. c = CHR '' '') clock = clock"
    using c by (cases clock) auto
  show ?thesis
    unfolding parseCalendar_def appendInt_4[OF y]
    using m
    by (simp add: isDigit_def isDigitChar_digit ds at skipChar_def
        getnum_appendInt[OF m'] getnum_appendInt[OF d] skipSpace_def dw)
qed

lemma parseClock_format:
  assumes h: "0 \<le> hour" "hour < 24"
    and m: "0 \<le> minute" "minute < 60"
    and s: "0 \<le> sec" "sec < 60"
  shows "parseClock (appendInt hour 2 @ '':'' @ appendInt minute 2 @ '':'' @ appendInt sec 2)
       = Some (hour, minute, sec, 0)"
proof -
  have h': "hour < 100" and m': "minute < 100" and s': "sec < 100" using h m s by auto
  have s'': "getnum (appendInt sec 2) True = Some (sec, [])"
    using getnum_appendInt[OF s(1) s', of "[]" True] by simp
  show ?thesis
    unfolding parseClock_def using h m s
    by (simp add: getnum_appendInt[OF h(1) h'] getnum_appendInt[OF m(1) m'] s'' skipChar_def
        fraction_def)
qed

lemma appendInt_2_hd:
  assumes "0 \<le> x" "x < 100"
  shows "appendInt x 2 @ rest \<noteq> [] \<and> hd (appendInt x 2 @ rest) \<noteq> CHR '' ''"
proof -
  have a: "nat x div 10 < 10" using assms by auto
  show ?thesis by (simp add: appendInt_2[OF assms] digit_not_mark[OF a])
qed

subsection \<open>The calendar: from a day count to a date and back\<close>

lemma cut100:
  fixes d :: int
  assumes "0 \<le> d" "d \<le> 146096"
  defines "c \<equiv> d div 36524"
  defines "n \<equiv> c - c div 4"
  shows "0 \<le> n \<and> n \<le> 3 \<and> 0 \<le> d - 36524 * n \<and> d - 36524 * n \<le> 36524
     \<and> (d - 36524 * n = 36524 \<longrightarrow> n = 3)"
proof -
  have c: "0 \<le> c" "c \<le> 4" "36524 * c \<le> d" "d < 36524 * c + 36524"
    using assms(1,2) unfolding c_def by arith+
  then consider "c = 0" | "c = 1" | "c = 2" | "c = 3" | "c = 4" by linarith
  then show ?thesis using c assms(1,2) unfolding n_def by cases simp_all
qed

lemma cut4:
  fixes d :: int
  assumes "0 \<le> d" "d \<le> 36524"
  defines "c \<equiv> d div 1461"
  shows "0 \<le> c \<and> c \<le> 24 \<and> 0 \<le> d - 1461 * c \<and> d - 1461 * c \<le> 1460"
proof -
  have c: "0 \<le> c" "c \<le> 24" "1461 * c \<le> d" "d < 1461 * c + 1461"
    using assms(1,2) unfolding c_def by arith+
  then show ?thesis by auto
qed

lemma cut1:
  fixes d :: int
  assumes "0 \<le> d" "d \<le> 1460"
  defines "c \<equiv> d div 365"
  defines "n \<equiv> c - c div 4"
  shows "0 \<le> n \<and> n \<le> 3 \<and> 0 \<le> d - 365 * n \<and> d - 365 * n \<le> 365
     \<and> (d - 365 * n = 365 \<longrightarrow> n = 3 \<and> d = 1460)"
proof -
  have c: "0 \<le> c" "c \<le> 4" "365 * c \<le> d" "d < 365 * c + 365"
    using assms(1,2) unfolding c_def by arith+
  then consider "c = 0" | "c = 1" | "c = 2" | "c = 3" | "c = 4" by linarith
  then show ?thesis using c assms(1,2) unfolding n_def by cases simp_all
qed

lemma cut400:
  fixes d :: int
  shows "0 \<le> d - 146097 * (d div 146097) \<and> d - 146097 * (d div 146097) \<le> 146096"
  by arith

lemma div_unique_int:
  fixes x q k :: int
  assumes "k * q \<le> x" "x < k * q + k" "0 < k"
  shows "x div k = q"
proof -
  have "x = q * k + (x - k * q)" by (simp add: algebra_simps)
  moreover have "0 \<le> x - k * q" "x - k * q < k" using assms by auto
  ultimately show ?thesis
    by (metis div_mult_self4 div_pos_pos_trivial add.commute add_0 mult.commute assms(3) less_irrefl)
qed

lemma years_back:
  fixes a b c e :: int
  assumes "0 \<le> b" "b \<le> 3" "0 \<le> c" "c \<le> 24" "0 \<le> e" "e \<le> 3"
  shows "daysSinceEpoch (400 * a + 100 * b + 4 * c + e + 1)
      = 146097 * a + 36524 * b + 1461 * c + 365 * e"
proof -
  define y where "y = 400 * a + 100 * b + 4 * c + e"
  have 1: "y div 400 = a" unfolding y_def using assms by (intro div_unique_int) auto
  define y1 where "y1 = y - 400 * a"
  have y1: "y1 = 100 * b + 4 * c + e" unfolding y1_def y_def by simp
  have 2: "y1 div 100 = b" unfolding y1 using assms by (intro div_unique_int) auto
  define y2 where "y2 = y1 - 100 * b"
  have y2: "y2 = 4 * c + e" unfolding y2_def y1 by simp
  have 3: "y2 div 4 = c" unfolding y2 using assms by (intro div_unique_int) auto
  have "daysSinceEpoch (y + 1) = 146097 * a + 36524 * b + 1461 * c + 365 * (y2 - 4 * c)"
    unfolding daysSinceEpoch_def Let_def
    by (simp add: 1 y1_def[symmetric] 2 y2_def[symmetric] 3)
  then show ?thesis unfolding y2 y_def by simp
qed

lemma leap_end:
  fixes a b c :: int
  assumes "0 \<le> b" "b \<le> 3" "0 \<le> c" "c \<le> 24" "c = 24 \<longrightarrow> b = 3"
  shows "isLeap (400 * a + 100 * b + 4 * c + 3 + 1)"
proof (cases "c = 24")
  case True
  with assms have "400 * a + 100 * b + 4 * c + 3 + 1 = 400 * (a + 1)" by simp
  then show ?thesis unfolding isLeap_def by simp
next
  case False
  with assms have c: "0 \<le> c" "c \<le> 23" by auto
  define x where "x = 400 * a + 100 * b + 4 * c + 3 + 1"
  have "x = 4 * (100 * a + 25 * b + c + 1)" unfolding x_def by simp
  then have m4: "x mod 4 = 0" by simp
  have "x = (4 * c + 4) + 100 * (4 * a + b)" unfolding x_def by simp
  then have "x mod 100 = (4 * c + 4) mod 100" by (simp only: mod_mult_self2)
  also have "\<dots> = 4 * c + 4" using c by simp
  finally have "x mod 100 \<noteq> 0" using c by simp
  with m4 show ?thesis unfolding isLeap_def x_def by simp
qed

lemma yearDay_sound:
  assumes "yearDay d0 = (year, yday)"
  shows "daysSinceEpoch year + yday = d0 \<and> 0 \<le> yday \<and> yday \<le> 365
     \<and> (yday = 365 \<longrightarrow> isLeap year)"
proof -
  define a where "a = d0 div 146097"
  define d1 where "d1 = d0 - 146097 * a"
  define b where "b = d1 div 36524 - d1 div 36524 div 4"
  define d2 where "d2 = d1 - 36524 * b"
  define c where "c = d2 div 1461"
  define d3 where "d3 = d2 - 1461 * c"
  define e where "e = d3 div 365 - d3 div 365 div 4"
  have yd: "year = 400 * a + 100 * b + 4 * c + e + 1" "yday = d3 - 365 * e"
    using assms unfolding yearDay_def Let_def a_def d1_def b_def d2_def c_def d3_def e_def
    by simp_all
  have r1: "0 \<le> d1" "d1 \<le> 146096" using cut400[of d0] unfolding d1_def a_def by simp_all
  have r2: "0 \<le> b" "b \<le> 3" "0 \<le> d2" "d2 \<le> 36524" "d2 = 36524 \<longrightarrow> b = 3"
    using cut100[OF r1] unfolding b_def d2_def by simp_all
  have r3: "0 \<le> c" "c \<le> 24" "0 \<le> d3" "d3 \<le> 1460"
    using cut4[OF r2(3,4)] unfolding c_def d3_def by simp_all
  have r4: "0 \<le> e" "e \<le> 3" "0 \<le> d3 - 365 * e" "d3 - 365 * e \<le> 365"
    "d3 - 365 * e = 365 \<longrightarrow> e = 3 \<and> d3 = 1460"
    using cut1[OF r3(3,4)] unfolding e_def by simp_all
  have bk: "daysSinceEpoch year = 146097 * a + 36524 * b + 1461 * c + 365 * e"
    unfolding yd(1) by (rule years_back[OF r2(1,2) r3(1,2) r4(1,2)])
  have sum: "daysSinceEpoch year + yday = d0"
    unfolding bk yd(2) d3_def d2_def d1_def by simp
  have leap: "yday = 365 \<longrightarrow> isLeap year"
  proof
    assume "yday = 365"
    with r4(5) have e3: "e = 3" and d3: "d3 = 1460" unfolding yd(2) by simp_all
    have "c = 24 \<longrightarrow> b = 3"
    proof
      assume "c = 24"
      then have "d2 = 36524" using d3 unfolding d3_def by simp
      then show "b = 3" using r2(5) by simp
    qed
    from leap_end[OF r2(1,2) r3(1,2) this, of a] show "isLeap year" unfolding yd(1) e3 by simp
  qed
  from sum r4(3,4) leap show ?thesis unfolding yd(2) by simp
qed

lemma monthDay_sound:
  assumes "0 \<le> yday" "yday \<le> 365" "yday = 365 \<longrightarrow> leap" "monthDay leap yday = (month, day)"
  shows "1 \<le> month \<and> month \<le> 12 \<and> 1 \<le> day
     \<and> day \<le> (if month = 2 \<and> leap then 29 else daysBefore month - daysBefore (month - 1))
     \<and> daysBefore (month - 1) + (if leap \<and> month \<ge> 3 then 1 else 0) + (day - 1) = yday"
proof (cases "leap \<and> yday = 59")
  case True
  then show ?thesis using assms(4) by (auto simp: monthDay_def daysBefore_def)
next
  case False
  define dd where "dd = (if leap \<and> yday > 59 then yday - 1 else yday)"
  define m where "m = dd div 31"
  have dd: "0 \<le> dd" "dd \<le> 364" using assms(1,2,3) unfolding dd_def by auto
  have m: "0 \<le> m" "m \<le> 11" "31 * m \<le> dd" "dd < 31 * m + 31"
    using dd unfolding m_def by arith+
  have md: "(month, day) = (if dd \<ge> daysBefore (m + 1) then (m + 2, dd - daysBefore (m + 1) + 1)
              else (m + 1, dd - daysBefore m + 1))"
    using assms(4) False unfolding monthDay_def Let_def dd_def m_def by simp
  have lp: "leap \<Longrightarrow> yday \<le> 58 \<or> yday \<ge> 60" using False by auto
  from m(1,2) have "m = 0 \<or> m = 1 \<or> m = 2 \<or> m = 3 \<or> m = 4 \<or> m = 5 \<or> m = 6
    \<or> m = 7 \<or> m = 8 \<or> m = 9 \<or> m = 10 \<or> m = 11" by presburger
  then consider "m = 0" | "m = 1" | "m = 2" | "m = 3" | "m = 4" | "m = 5" | "m = 6"
    | "m = 7" | "m = 8" | "m = 9" | "m = 10" | "m = 11" by blast
  then show ?thesis
  proof cases
    case 1 with md m dd lp show ?thesis unfolding dd_def by (auto simp: daysBefore_def split: if_splits)
  next
    case 2 with md m dd lp show ?thesis unfolding dd_def by (auto simp: daysBefore_def split: if_splits)
  next
    case 3 with md m dd lp show ?thesis unfolding dd_def by (auto simp: daysBefore_def split: if_splits)
  next
    case 4 with md m dd lp show ?thesis unfolding dd_def by (auto simp: daysBefore_def split: if_splits)
  next
    case 5 with md m dd lp show ?thesis unfolding dd_def by (auto simp: daysBefore_def split: if_splits)
  next
    case 6 with md m dd lp show ?thesis unfolding dd_def by (auto simp: daysBefore_def split: if_splits)
  next
    case 7 with md m dd lp show ?thesis unfolding dd_def by (auto simp: daysBefore_def split: if_splits)
  next
    case 8 with md m dd lp show ?thesis unfolding dd_def by (auto simp: daysBefore_def split: if_splits)
  next
    case 9 with md m dd lp show ?thesis unfolding dd_def by (auto simp: daysBefore_def split: if_splits)
  next
    case 10 with md m dd lp show ?thesis unfolding dd_def by (auto simp: daysBefore_def split: if_splits)
  next
    case 11 with md m dd lp show ?thesis unfolding dd_def by (auto simp: daysBefore_def split: if_splits)
  next
    case 12 with md m dd lp show ?thesis unfolding dd_def by (auto simp: daysBefore_def split: if_splits)
  qed
qed

subsection \<open>A formatted time read back\<close>

lemma absDate_sound:
  assumes "absDate d0 = (year, month, day)"
  shows "1 \<le> month \<and> month \<le> 12 \<and> 1 \<le> day \<and> day \<le> daysIn month year
     \<and> daysSinceEpoch year + daysBefore (month - 1)
         + (if isLeap year \<and> month \<ge> 3 then 1 else 0) + (day - 1) = d0"
proof -
  obtain yday where yd: "yearDay d0 = (year, yday)" and md: "monthDay (isLeap year) yday = (month, day)"
    using assms unfolding absDate_def by (auto split: prod.splits)
  from yearDay_sound[OF yd] have y: "daysSinceEpoch year + yday = d0" "0 \<le> yday" "yday \<le> 365"
    "yday = 365 \<longrightarrow> isLeap year" by simp_all
  from monthDay_sound[OF y(2,3,4) md] y(1) show ?thesis unfolding daysIn_def by simp
qed

lemma clock_back:
  fixes s :: int
  shows "s div 3600 * 3600 + s mod 3600 div 60 * 60 + s mod 60 = s"
proof -
  have "s mod 60 = s mod 3600 mod 60" by (simp add: mod_mod_cancel)
  then have "s mod 3600 div 60 * 60 + s mod 60 = s mod 3600" by simp
  then show ?thesis by (metis add.assoc div_mult_mod_eq)
qed

lemma wallSeconds_back:
  assumes "absDate (w div 86400 + 719162) = (year, month, day)"
  shows "wallSeconds year month day (w mod 86400 div 3600) (w mod 86400 mod 3600 div 60)
           (w mod 86400 mod 60) = w"
proof -
  from absDate_sound[OF assms]
  have d: "daysSinceEpoch year + daysBefore (month - 1)
         + (if isLeap year \<and> month \<ge> 3 then 1 else 0) + (day - 1) - 719162 = w div 86400"
    by simp
  have "wallSeconds year month day (w mod 86400 div 3600) (w mod 86400 mod 3600 div 60)
           (w mod 86400 mod 60)
        = w div 86400 * 86400 + (w mod 86400 div 3600 * 3600 + w mod 86400 mod 3600 div 60 * 60
            + w mod 86400 mod 60)"
    unfolding wallSeconds_def d by simp
  also have "\<dots> = w div 86400 * 86400 + w mod 86400" by (simp only: clock_back)
  also have "\<dots> = w" by simp
  finally show ?thesis .
qed

lemma time_Date_settles:
  assumes "wallSeconds year month day hour minute sec = u + zoneOffset l u"
    and "lookup l (u + zoneOffset l u) = (off, start, fin)"
  shows "(time_Date year month day hour minute sec ns l = \<lparr>unixSec = u, nsec = ns, loc = l\<rparr>)
     = (off = zoneOffset l u
        \<or> (off \<noteq> 0 \<and> (u + zoneOffset l u - off < start \<or> fin \<le> u + zoneOffset l u - off)
            \<and> zoneOffset l (u + zoneOffset l u - off) = zoneOffset l u))"
proof (cases "off = 0")
  case True
  then show ?thesis unfolding time_Date_def assms Let_def by auto
next
  case nz: False
  show ?thesis
  proof (cases "u + zoneOffset l u - off < start \<or> fin \<le> u + zoneOffset l u - off")
    case True
    have "off = zoneOffset l u \<Longrightarrow> zoneOffset l (u + zoneOffset l u - off) = zoneOffset l u"
      by simp
    then show ?thesis using nz True unfolding time_Date_def assms Let_def by auto
  next
    case False
    then show ?thesis using nz unfolding time_Date_def assms Let_def by auto
  qed
qed

lemma clock_ranges:
  fixes w :: int
  shows "0 \<le> w mod 86400 div 3600" "w mod 86400 div 3600 < 24"
    "0 \<le> w mod 86400 mod 3600 div 60" "w mod 86400 mod 3600 div 60 < 60"
    "0 \<le> w mod 86400 mod 60" "w mod 86400 mod 60 < 60"
proof -
  have a: "0 \<le> w mod 86400" "w mod 86400 < 86400" by simp_all
  show "0 \<le> w mod 86400 div 3600" using a(1) by (simp add: pos_imp_zdiv_nonneg_iff)
  show "w mod 86400 div 3600 < 24" using a by arith
  have b: "0 \<le> w mod 86400 mod 3600" "w mod 86400 mod 3600 < 3600" by simp_all
  show "0 \<le> w mod 86400 mod 3600 div 60" using b(1) by (simp add: pos_imp_zdiv_nonneg_iff)
  show "w mod 86400 mod 3600 div 60 < 60" using b by arith
  show "0 \<le> w mod 86400 mod 60" "w mod 86400 mod 60 < 60" by simp_all
qed

subsection \<open>Formatting and parsing the examples\<close>

lemma absDate_eval:
  "yearDay d0 = (year, yday) \<Longrightarrow> monthDay (isLeap year) yday = (month, day)
     \<Longrightarrow> absDate d0 = (year, month, day)"
  by (simp add: absDate_def)

lemma time_Format_eval:
  assumes "time_abs t = w" and "absDate (w div 86400 + 719162) = (year, month, day)"
  shows "time_Format t = appendInt year 4 @ ''-'' @ appendInt month 2 @ ''-'' @ appendInt day 2
     @ '' '' @ appendInt (w mod 86400 div 3600) 2 @ '':'' @ appendInt (w mod 86400 mod 3600 div 60) 2
     @ '':'' @ appendInt (w mod 86400 mod 60) 2"
  unfolding time_Format_def Let_def assms by simp

lemma time_Parse_eval:
  assumes "parseCalendar v = Some (year, month, day, v1)"
    and "parseClock v1 = Some (hour, minute, sec, ns)"
    and "1 \<le> day" and "day \<le> daysIn month year"
    and "wallSeconds year month day hour minute sec = w"
    and "lookup l w = (off, start, fin)"
    and "off \<noteq> 0" and "start \<le> w - off" and "w - off < fin"
  shows "time_ParseInLocation v l = Inr \<lparr>unixSec = w - off, nsec = ns, loc = l\<rparr>"
  unfolding time_ParseInLocation_def time_Date_def Let_def
  using assms(3,4,7,8,9) by (simp add: assms(1,2,5,6))

lemmas appendInt_eval = appendInt_def decimal.simps digit_def char_of_def bit_iff_odd

lemma absDate_20241103: "absDate 739192 = (2024, 11, 3)"
proof -
  have yd: "yearDay 739192 = (2024, 307)" unfolding yearDay_def Let_def by simp
  have md: "monthDay (isLeap 2024) 307 = (11, 3)"
    unfolding monthDay_def Let_def by (simp add: isLeap_def daysBefore_def)
  show ?thesis by (rule absDate_eval[OF yd md])
qed

lemma absDate_20240703: "absDate 739069 = (2024, 7, 3)"
proof -
  have yd: "yearDay 739069 = (2024, 184)" unfolding yearDay_def Let_def by simp
  have md: "monthDay (isLeap 2024) 184 = (7, 3)"
    unfolding monthDay_def Let_def by (simp add: isLeap_def daysBefore_def)
  show ?thesis by (rule absDate_eval[OF yd md])
qed

lemma absDate_100000101: "absDate 3652059 = (10000, 1, 1)"
proof -
  have yd: "yearDay 3652059 = (10000, 0)" unfolding yearDay_def Let_def by simp
  have md: "monthDay (isLeap 10000) 0 = (1, 1)"
    unfolding monthDay_def Let_def by (simp add: isLeap_def daysBefore_def)
  show ?thesis by (rule absDate_eval[OF yd md])
qed

lemma format_second_0130:
  "time_Format \<lparr>unixSec = 1730615400, nsec = 0, loc = NewYork\<rparr> = ''2024-11-03 01:30:00''"
proof -
  have w: "time_abs \<lparr>unixSec = 1730615400, nsec = 0, loc = NewYork\<rparr> = 1730597400"
    by (simp add: time_abs_def zoneOffset_def lookup_def NewYork_def)
  have ad: "absDate (1730597400 div 86400 + 719162) = (2024, 11, 3)"
    using absDate_20241103 by simp
  show ?thesis unfolding time_Format_eval[OF w ad] by (simp add: appendInt_eval)
qed

lemma wallSeconds_0130: "wallSeconds 2024 11 3 1 30 0 = 1730597400"
  unfolding wallSeconds_def daysSinceEpoch_def Let_def
  by (simp add: daysBefore_def isLeap_def)

lemma parse_0130:
  "time_ParseInLocation ''2024-11-03 01:30:00'' NewYork
     = Inr \<lparr>unixSec = 1730611800, nsec = 0, loc = NewYork\<rparr>"
proof -
  have 1: "parseCalendar ''2024-11-03 01:30:00'' = Some (2024, 11, 3, ''01:30:00'')"
    by (simp add: parse_defs)
  have 2: "parseClock ''01:30:00'' = Some (1, 30, 0, 0)" by (simp add: parse_defs)
  have 3: "(1::int) \<le> 3" by simp
  have 4: "3 \<le> daysIn 11 2024" by (simp add: daysIn_def daysBefore_def)
  have 6: "lookup NewYork 1730597400 = (- 14400, 1710054000, 1730613600)"
    by (simp add: lookup_def NewYork_def)
  have 7: "(- 14400 :: int) \<noteq> 0" by simp
  have 8: "(1710054000::int) \<le> 1730597400 - - 14400" by simp
  have 9: "(1730597400::int) - - 14400 < 1730613600" by simp
  from time_Parse_eval[OF 1 2 3 4 wallSeconds_0130 6 7 8 9] show ?thesis by simp
qed

lemma format_year_10000:
  "time_Format \<lparr>unixSec = 253402300800, nsec = 0, loc = UTC\<rparr> = ''10000-01-01 00:00:00''"
proof -
  have w: "time_abs \<lparr>unixSec = 253402300800, nsec = 0, loc = UTC\<rparr> = 253402300800"
    by (simp add: time_abs_def zoneOffset_def lookup_def UTC_def)
  have ad: "absDate (253402300800 div 86400 + 719162) = (10000, 1, 1)"
    using absDate_100000101 by simp
  show ?thesis unfolding time_Format_eval[OF w ad] by (simp add: appendInt_eval)
qed

lemma parse_year_10000:
  "time_ParseInLocation ''10000-01-01 00:00:00'' UTC = Inl (ParseError ''10000-01-01 00:00:00'')"
  by (simp add: parse_defs)

lemma Gather_fetch_got:
  assumes "http_Get (server env) req = Some (Inr resp)" and "StatusCode resp = 200"
    and "json_Decode (Body resp) = Inr target"
  shows "Gather_fetch env s acc l req =
     Some (s, fst (Gather_loop (Name s) l (elapsed env) (Telemetries (Data target)) acc),
           Returned (snd (Gather_loop (Name s) l (elapsed env) (Telemetries (Data target)) acc)))"
  unfolding Gather_fetch_def by (simp add: assms split: prod.split)

lemma Host_request [simp]: "Host (Gather_request env s u t) = Host u"
  by (simp add: Gather_request_def Let_def)

lemma http_Get_redirecting:
  assumes "Host req \<noteq> ''example.org''" and "shouldRedirect code"
  shows "http_Get (server (redirecting code body)) req
     = Some (Inr \<lparr>StatusCode = 200, Location = None, Body = body\<rparr>)"
  using assms
  by (simp add: http_Get_def client_Do_def eval_nat_numeral redirecting_def not_redirect_200)

subsection \<open>The query parameters and the window\<close>

lemma map_of_Values_Add_same:
  "key \<in> set (map fst v) \<Longrightarrow>
     map_of (map (\<lambda>(k, vs). if k = key then (k, vs @ [val]) else (k, vs)) v) key
       = map_option (\<lambda>vs. vs @ [val]) (map_of v key)"
  by (induction v) auto

lemma map_of_Values_Add_other:
  "k' \<noteq> key \<Longrightarrow>
     map_of (map (\<lambda>(k, vs). if k = key then (k, vs @ [val]) else (k, vs)) v) k' = map_of v k'"
  by (induction v) auto

lemma Values_lookup_Add_same:
  "Values_lookup (Values_Add v key val) key = Values_lookup v key @ [val]"
proof (cases "key \<in> set (map fst v)")
  case True
  then obtain vs where "map_of v key = Some vs"
    by (metis map_of_eq_None_iff not_Some_eq set_map)
  then show ?thesis using True
    by (simp add: Values_lookup_def Values_Add_def map_of_Values_Add_same)
next
  case False
  then have "map_of v key = None" by (simp add: map_of_eq_None_iff)
  then show ?thesis using False by (simp add: Values_lookup_def Values_Add_def map_add_def)
qed

lemma Values_lookup_Add_other:
  "k' \<noteq> key \<Longrightarrow> Values_lookup (Values_Add v key val) k' = Values_lookup v k'"
  by (cases "key \<in> set (map fst v)")
     (auto simp: Values_lookup_def Values_Add_def map_of_Values_Add_other map_add_def
        split: option.splits)

lemma joinAmp_contains:
  "y \<in> set ys \<Longrightarrow> \<exists>pre post. joinAmp ys = pre @ y @ post"
proof (induction ys rule: joinAmp.induct)
  case 1
  then show ?case by simp
next
  case (2 x)
  then have "joinAmp [x] = [] @ y @ []" by simp
  then show ?case by blast
next
  case (3 x z zs)
  show ?case
  proof (cases "y = x")
    case True
    then have "joinAmp (x # z # zs) = [] @ y @ (''&'' @ joinAmp (z # zs))" by simp
    then show ?thesis by blast
  next
    case False
    with 3 obtain pre post where "joinAmp (z # zs) = pre @ y @ post" by auto
    then have "joinAmp (x # z # zs) = (x @ ''&'' @ pre) @ y @ post" by simp
    then show ?thesis by blast
  qed
qed

lemma Values_Encode_contains:
  assumes "x \<in> set (Values_lookup v k)"
  shows "\<exists>pre post. Values_Encode v = pre @ QueryEscape k @ ''='' @ QueryEscape x @ post"
proof -
  have "map_of v k \<noteq> None"
    using assms by (cases "map_of v k") (simp_all add: Values_lookup_def)
  then obtain vs where "map_of v k = Some vs" by auto
  then have "k \<in> set (map fst v)" by (metis map_of_eq_None_iff option.distinct(1) set_map)
  then have k: "k \<in> set (sort (remdups (map fst v)))" by simp
  have "QueryEscape k @ ''='' @ QueryEscape x
      \<in> set (concat (map (\<lambda>k. map (\<lambda>x. QueryEscape k @ ''='' @ QueryEscape x) (Values_lookup v k))
                          (sort (remdups (map fst v)))))"
    using k assms by auto
  from joinAmp_contains[OF this] show ?thesis unfolding Values_Encode_def by simp
qed

lemma time_UnixNano_Add: "time_UnixNano (time_Add t d) = time_UnixNano t + d"
proof -
  have "d sdiv 1000000000 * 1000000000 + d smod 1000000000 = d"
    by (rule sdiv_mult_smod_eq)
  then show ?thesis
    unfolding time_Add_def Let_def time_UnixNano_def by (auto simp: algebra_simps)
qed

lemma loc_time_Add: "loc (time_Add t d) = loc t"
  by (simp add: time_Add_def Let_def)

lemma absDate_20240101: "absDate 738885 = (2024, 1, 1)"
proof -
  have yd: "yearDay 738885 = (2024, 0)" unfolding yearDay_def Let_def by simp
  have md: "monthDay (isLeap 2024) 0 = (1, 1)"
    unfolding monthDay_def Let_def by (simp add: isLeap_def daysBefore_def)
  show ?thesis by (rule absDate_eval[OF yd md])
qed

lemma absDate_20231226: "absDate 738879 = (2023, 12, 26)"
proof -
  have yd: "yearDay 738879 = (2023, 359)" unfolding yearDay_def Let_def by simp
  have md: "monthDay (isLeap 2023) 359 = (12, 26)"
    unfolding monthDay_def Let_def by (simp add: isLeap_def daysBefore_def)
  show ?thesis by (rule absDate_eval[OF yd md])
qed

lemma format_newyear:
  "time_Format \<lparr>unixSec = 1704067200, nsec = 7, loc = UTC\<rparr> = ''2024-01-01 00:00:00''"
proof -
  have w: "time_abs \<lparr>unixSec = 1704067200, nsec = 7, loc = UTC\<rparr> = 1704067200"
    by (simp add: time_abs_def zoneOffset_def lookup_def UTC_def)
  have ad: "absDate (1704067200 div 86400 + 719162) = (2024, 1, 1)"
    using absDate_20240101 by simp
  show ?thesis unfolding time_Format_eval[OF w ad] by (simp add: appendInt_eval)
qed

lemma format_boxing_day:
  "time_Format \<lparr>unixSec = 1703548800, nsec = 7, loc = UTC\<rparr> = ''2023-12-26 00:00:00''"
proof -
  have w: "time_abs \<lparr>unixSec = 1703548800, nsec = 7, loc = UTC\<rparr> = 1703548800"
    by (simp add: time_abs_def zoneOffset_def lookup_def UTC_def)
  have ad: "absDate (1703548800 div 86400 + 719162) = (2023, 12, 26)"
    using absDate_20231226 by simp
  show ?thesis unfolding time_Format_eval[OF w ad] by (simp add: appendInt_eval)
qed

lemma window_start:
  "time_Add \<lparr>unixSec = 1704067200, nsec = 7, loc = UTC\<rparr> (- (6 * 24 * Hour))
     = \<lparr>unixSec = 1703548800, nsec = 7, loc = UTC\<rparr>"
  by (simp add: time_Add_def Hour_def Second_def)

lemma escape_time:
  "QueryEscape ''2024-01-01 00:00:00'' = ''2024-01-01+00%3A00%3A00''"
  "QueryEscape ''2023-12-26 00:00:00'' = ''2023-12-26+00%3A00%3A00''"
  by (simp_all add: QueryEscape_def escapeByte_def shouldEscape_def isAlnum_def upperhex_def)

lemma escape_keys:
  "QueryEscape ''api_key'' = ''api_key''" "QueryEscape ''startTime'' = ''startTime''"
  "QueryEscape ''endTime'' = ''endTime''" "QueryEscape [] = []"
  by (simp_all add: QueryEscape_def escapeByte_def shouldEscape_def isAlnum_def)

lemma sorted_keys: "sort [''api_key'', ''startTime'', ''endTime''] = [''api_key'', ''endTime'', ''startTime'']"
  by simp

lemma encode_window:
  "Values_Encode (Values_Add (Values_Add (Values_Add [] ''api_key'' [])
       ''startTime'' ''2023-12-26 00:00:00'') ''endTime'' ''2024-01-01 00:00:00'')
     = ''api_key=&endTime=2024-01-01+00%3A00%3A00&startTime=2023-12-26+00%3A00%3A00''"
  unfolding Values_Encode_def Values_Add_def
  by (simp add: sorted_keys Values_lookup_def escape_time escape_keys)

subsection \<open>The bodies that decode\<close>

lemma saveError_None [simp]: "(saveError e e' = None) = (e = None \<and> e' = None)"
  by (cases e) (simp_all add: saveError_def)

lemma float_iff: "(snd (decode_float64 v x) = None) = conforms FloatShape v"
proof (cases v)
  case (JNumber i f)
  then show ?thesis by (cases f) simp_all
qed simp_all

lemma int_iff: "(snd (decode_int v x) = None) = conforms IntShape v"
proof (cases v)
  case (JNumber i f)
  then show ?thesis by (cases i) simp_all
qed simp_all

lemma string_iff: "(snd (decode_string v x) = None) = conforms StringShape v"
  by (cases v) simp_all

lemma object_iff:
  assumes "\<And>k v x. (snd (field k v x) = None) = P k v"
  shows "(snd (decode_object field kvs x) = None) = (\<forall>(k, v) \<in> set kvs. P k v)"
proof (induction kvs arbitrary: x)
  case Nil
  show ?case by simp
next
  case (Cons kv kvs)
  obtain k v where kv: "kv = (k, v)" by (cases kv)
  show ?case unfolding kv
    by (simp add: Let_def case_prod_beta assms Cons.IH)
qed

lemma struct_iff:
  assumes "\<And>k v x. (snd (field k v x) = None)
      = (\<forall>(n, sh) \<in> set fs. selects k n \<longrightarrow> conforms sh v)"
  shows "(snd (decode_struct field j x) = None) = conforms (StructShape fs) j"
proof (cases j)
  case (JObject kvs)
  show ?thesis unfolding JObject
    by (simp add: object_iff[where field = field, OF assms])
qed simp_all

lemma selects_iff: "selects k n = (foldName k = foldName n)"
  by (auto simp: selects_def)

lemmas fold_eval = toUpper_def char_of_def bit_iff_odd

lemma fold_L1Data:
  "foldName ''acCurrent'' = ''ACCURRENT''" "foldName ''acVoltage'' = ''ACVOLTAGE''"
  "foldName ''acFrequency'' = ''ACFREQUENCY''" "foldName ''apparentPower'' = ''APPARENTPOWER''"
  "foldName ''activePower'' = ''ACTIVEPOWER''" "foldName ''reactivePower'' = ''REACTIVEPOWER''"
  "foldName ''cosPhi'' = ''COSPHI''"
  by (simp_all add: fold_eval)

lemma fold_Telemetry:
  "foldName ''date'' = ''DATE''" "foldName ''totalActivePower'' = ''TOTALACTIVEPOWER''"
  "foldName ''dcVoltage'' = ''DCVOLTAGE''"
  "foldName ''groundFaultResistance'' = ''GROUNDFAULTRESISTANCE''"
  "foldName ''powerLimit'' = ''POWERLIMIT''" "foldName ''totalEnergy'' = ''TOTALENERGY''"
  "foldName ''temperature'' = ''TEMPERATURE''" "foldName ''inverterMode'' = ''INVERTERMODE''"
  "foldName ''L1Data'' = ''L1DATA''"
  by (simp_all add: fold_eval)

lemma fold_Data:
  "foldName ''count'' = ''COUNT''" "foldName ''telemetries'' = ''TELEMETRIES''"
  "foldName ''data'' = ''DATA''"
  by (simp_all add: fold_eval)

lemma field_L1Data_iff:
  "(snd (field_L1Data k v x) = None)
     = (\<forall>(n, sh) \<in> set [(''acCurrent'', FloatShape), (''acVoltage'', FloatShape),
          (''acFrequency'', FloatShape), (''apparentPower'', FloatShape),
          (''activePower'', FloatShape), (''reactivePower'', FloatShape),
          (''cosPhi'', FloatShape)]. selects k n \<longrightarrow> conforms sh v)"
  by (simp add: field_L1Data_def Let_def case_prod_beta float_iff selects_iff fold_L1Data
      del: foldName.simps)

lemma L1Data_iff: "(snd (decode_L1Data j x) = None) = conforms shape_L1Data j"
  unfolding shape_L1Data_def decode_L1Data_def
  by (rule struct_iff) (rule field_L1Data_iff)

lemma field_Telemetry_iff:
  "(snd (field_Telemetry k v x) = None)
     = (\<forall>(n, sh) \<in> set [(''date'', StringShape), (''totalActivePower'', FloatShape),
          (''dcVoltage'', FloatShape), (''groundFaultResistance'', FloatShape),
          (''powerLimit'', FloatShape), (''totalEnergy'', FloatShape),
          (''temperature'', FloatShape), (''inverterMode'', StringShape),
          (''L1Data'', shape_L1Data)]. selects k n \<longrightarrow> conforms sh v)"
  by (simp add: field_Telemetry_def Let_def case_prod_beta float_iff string_iff L1Data_iff
      selects_iff fold_Telemetry del: foldName.simps)

lemma Telemetry_iff: "(snd (decode_Telemetry j x) = None) = conforms shape_Telemetry j"
  unfolding shape_Telemetry_def decode_Telemetry_def
  by (rule struct_iff) (rule field_Telemetry_iff)

lemma elements_iff:
  "(snd (decode_elements decode_Telemetry z js backing) = None)
     = (\<forall>j \<in> set js. conforms shape_Telemetry j)"
  by (induction js arbitrary: backing) (simp_all add: Let_def case_prod_beta Telemetry_iff)

lemma slice_iff:
  "(snd (decode_slice decode_Telemetry z j (xs, spare)) = None)
     = conforms (SliceShape shape_Telemetry) j"
  by (cases j) (simp_all add: Let_def case_prod_beta elements_iff)

lemma field_Data_iff:
  "(snd (field_Data k v x) = None)
     = (\<forall>(n, sh) \<in> set [(''count'', IntShape), (''telemetries'', SliceShape shape_Telemetry)].
          selects k n \<longrightarrow> conforms sh v)"
proof -
  obtain d spare where x: "x = (d, spare)" by (cases x)
  show ?thesis unfolding x
    by (simp add: field_Data_def Let_def case_prod_beta int_iff slice_iff selects_iff fold_Data
        del: foldName.simps)
qed

lemma Data_iff: "(snd (decode_Data j x) = None) = conforms shape_Data j"
  unfolding shape_Data_def decode_Data_def
  by (rule struct_iff) (rule field_Data_iff)

lemma field_Equipment_iff:
  "(snd (field_Equipment k v x) = None)
     = (\<forall>(n, sh) \<in> set [(''data'', shape_Data)]. selects k n \<longrightarrow> conforms sh v)"
  by (simp add: field_Equipment_def Let_def case_prod_beta Data_iff)

lemma Equipment_iff: "(snd (decode_Equipment j x) = None) = conforms shape_Equipment j"
  unfolding shape_Equipment_def decode_Equipment_def
  by (rule struct_iff) (rule field_Equipment_iff)

lemma json_Decode_iff:
  "(\<exists>target. json_Decode (Some j) = Inr target) = conforms shape_Equipment j"
proof -
  obtain target spare e where d: "decode_Equipment j (zero_Equipment, []) = ((target, spare), e)"
    by (metis surj_pair)
  have "(\<exists>target. json_Decode (Some j) = Inr target) = (e = None)"
    by (cases e) (simp_all add: json_Decode_def d)
  also have "\<dots> = conforms shape_Equipment j"
    using Equipment_iff[of j "(zero_Equipment, [])"] unfolding d by simp
  finally show ?thesis .
qed

lemma Gather_fetch_undecoded:
  assumes "http_Get (server env) req = Some (Inr resp)" and "StatusCode resp = 200"
    and "json_Decode (Body resp) = Inl err"
  shows "Gather_fetch env s acc l req = Some (s, acc, Returned (Some err))"
  unfolding Gather_fetch_def by (simp add: assms)

section \<open>The claims\<close>

text \<open>
  C7. When the URL parses, the location loads, the server answers 200 and the body
  decodes, and the date of every sample parses, the call returns nil and has added one
  metric for each sample, in the order of the samples: its name is the collector's, its
  time is the parsed date, its tags are empty, and its fields are those of
  \<open>telemetryFields\<close>, whose keys are exactly the fifteen names.
\<close>
theorem one_metric_per_sample:
  assumes "url_Parse env (equipmentURL s) = Some u"
    and "time_LoadLocation env (TimeZone s) = Some l"
    and "server env (request env s u l) = Answers resp"
    and "StatusCode resp = 200"
    and "json_Decode (Body resp) = Inr target"
    and "\<forall>t \<in> set (Telemetries (Data target)). \<exists>d. time_ParseInLocation (Date t) l = Inr d"
  shows "Gather env s acc =
      Some (Gather_client s,
            acc @ map (\<lambda>t. \<lparr>measurement = Name s, fieldMap = telemetryFields (elapsed env) t,
                              tagMap = Map.empty,
                              timestamp = projr (time_ParseInLocation (Date t) l)\<rparr>)
                      (Telemetries (Data target)),
            Returned None)
    \<and> (\<forall>t. dom (telemetryFields (elapsed env) t) =
          {''response_time'', ''totalActivePower'', ''dcVoltage'', ''groundFaultResistance'',
           ''powerLimit'', ''totalEnergy'', ''temperature'', ''inverterMode'', ''acCurrent'',
           ''acVoltage'', ''acFrequency'', ''apparentPower'', ''activePower'', ''reactivePower'',
           ''cosPhi''})"
proof -
  have "\<And>t. t \<in> set (Telemetries (Data target)) \<Longrightarrow> \<exists>d. time_ParseInLocation (Date t) l = Inr d"
    using assms(6) by blast
  from loop_all_parse[OF this] Gather_decoded[OF assms(1-5)]
  show ?thesis by (simp add: dom_telemetryFields)
qed

theorem one_metric_per_sample_witness:
  "Gather (answering 200 (Some (jsonResponse 1 [jsonSample ''2024-01-01 00:00:00'']))) init []
     = Some (Gather_client init,
         [\<lparr>measurement = [], fieldMap = telemetryFields (1 / 4) (sample ''2024-01-01 00:00:00''),
           tagMap = Map.empty, timestamp = \<lparr>unixSec = 1704067200, nsec = 0, loc = UTC\<rparr>\<rparr>],
         Returned None)
   \<and> dom (telemetryFields (1 / 4) (sample ''2024-01-01 00:00:00'')) =
          {''response_time'', ''totalActivePower'', ''dcVoltage'', ''groundFaultResistance'',
           ''powerLimit'', ''totalEnergy'', ''temperature'', ''inverterMode'', ''acCurrent'',
           ''acVoltage'', ''acFrequency'', ''apparentPower'', ''activePower'', ''reactivePower'',
           ''cosPhi''}"
proof -
  let ?env = "answering 200 (Some (jsonResponse 1 [jsonSample ''2024-01-01 00:00:00'']))"
  let ?target = "\<lparr>Data = \<lparr>Count = 1, Telemetries = [sample ''2024-01-01 00:00:00'']\<rparr>\<rparr>"
  have 1: "url_Parse ?env (equipmentURL init) =
     Some \<lparr>Scheme = ''https'', Host = ''monitoringapi.solaredge.com'', Path = ''/equipment///data'',
           RawQuery = [], Fragment = []\<rparr>"
    by (rule url_Parse_answering)
  have 2: "time_LoadLocation ?env (TimeZone init) = Some UTC" by (rule LoadLocation_init)
  have 3: "server ?env (request ?env init \<lparr>Scheme = ''https'', Host = ''monitoringapi.solaredge.com'', Path = ''/equipment///data'',
           RawQuery = [], Fragment = []\<rparr> UTC) = Answers \<lparr>StatusCode = 200, Location = None, Body = Some (jsonResponse 1 [jsonSample ''2024-01-01 00:00:00''])\<rparr>"
    by (rule server_answering)
  have 4: "StatusCode \<lparr>StatusCode = 200, Location = None, Body = Some (jsonResponse 1 [jsonSample ''2024-01-01 00:00:00''])\<rparr> = 200" by simp
  have 5: "json_Decode (Body \<lparr>StatusCode = 200, Location = None, Body = Some (jsonResponse 1 [jsonSample ''2024-01-01 00:00:00''])\<rparr>) = Inr ?target"
    by (simp add: decode_jsonResponse1)
  have 6: "\<forall>t \<in> set (Telemetries (Data ?target)). \<exists>d. time_ParseInLocation (Date t) UTC = Inr d"
    by (simp add: sample_def parse_newyear)
  have el: "elapsed ?env = 1 / 4" by (simp add: answering_def env0_def)
  have nm: "Name init = []" by (simp add: init_def)
  show ?thesis
    using one_metric_per_sample[OF 1 2 3 4 5 6, of "[]"]
    by (simp add: el nm sample_def parse_newyear)
qed

text \<open>
  C10, amended. When the body decodes and the date of every sample parses, the call
  returns nil and has added as many metrics as there are samples, whatever the decoded
  count is: the count does not occur in the result.
\<close>
theorem metrics_independent_of_count:
  assumes "url_Parse env (equipmentURL s) = Some u"
    and "time_LoadLocation env (TimeZone s) = Some l"
    and "server env (request env s u l) = Answers resp"
    and "StatusCode resp = 200"
    and "json_Decode (Body resp) = Inr \<lparr>Data = \<lparr>Count = c, Telemetries = ts\<rparr>\<rparr>"
    and "\<forall>t \<in> set ts. \<exists>d. time_ParseInLocation (Date t) l = Inr d"
  shows "\<exists>points. Gather env s acc = Some (Gather_client s, acc @ points, Returned None)
           \<and> length points = length ts"
proof -
  have "\<And>t. t \<in> set ts \<Longrightarrow> \<exists>d. time_ParseInLocation (Date t) l = Inr d"
    using assms(6) by blast
  from loop_all_parse[OF this] Gather_decoded[OF assms(1-5)]
  show ?thesis by simp
qed

theorem metrics_independent_of_count_witness:
  "\<exists>points. Gather (answering 200 (Some (jsonResponse 5
        [jsonSample ''2024-01-01 00:00:00'', jsonSample ''2024-01-01 00:00:00'']))) init []
      = Some (Gather_client init, points, Returned None) \<and> length points = 2"
proof -
  let ?body = "Some (jsonResponse 5 [jsonSample ''2024-01-01 00:00:00'', jsonSample ''2024-01-01 00:00:00''])"
  let ?env = "answering 200 ?body"
  let ?u = "\<lparr>Scheme = ''https'', Host = ''monitoringapi.solaredge.com'', Path = ''/equipment///data'',
           RawQuery = [], Fragment = []\<rparr>"
  let ?ts = "[sample ''2024-01-01 00:00:00'', sample ''2024-01-01 00:00:00'']"
  have 1: "url_Parse ?env (equipmentURL init) = Some ?u" by (rule url_Parse_answering)
  have 2: "time_LoadLocation ?env (TimeZone init) = Some UTC" by (rule LoadLocation_init)
  have 3: "server ?env (request ?env init ?u UTC) = Answers \<lparr>StatusCode = 200, Location = None, Body = ?body\<rparr>"
    by (rule server_answering)
  have 4: "StatusCode \<lparr>StatusCode = 200, Location = None, Body = ?body\<rparr> = 200" by simp
  have 5: "json_Decode (Body \<lparr>StatusCode = 200, Location = None, Body = ?body\<rparr>) = Inr \<lparr>Data = \<lparr>Count = 5, Telemetries = ?ts\<rparr>\<rparr>"
    by (simp add: decode_jsonResponse2)
  have 6: "\<forall>t \<in> set ?ts. \<exists>d. time_ParseInLocation (Date t) UTC = Inr d"
    by (simp add: sample_def parse_newyear)
  show ?thesis
    using metrics_independent_of_count[OF 1 2 3 4 5 6, of "[]"] by (simp add: numeral_2_eq_2)
qed

text \<open>
  C10, as it stands, fails: a decoded response with one sample whose date does not parse
  gives no metric, not one, whatever its count says.
\<close>
theorem metrics_fewer_than_samples:
  "Gather (answering 200 (Some (jsonResponse 1 [jsonSample ''bad'']))) init []
     = Some (Gather_client init, [], Returned (Some (ParseError ''bad'')))
   \<and> json_Decode (Some (jsonResponse 1 [jsonSample ''bad'']))
       = Inr \<lparr>Data = \<lparr>Count = 1, Telemetries = [sample ''bad'']\<rparr>\<rparr>"
proof -
  let ?body = "Some (jsonResponse 1 [jsonSample ''bad''])"
  let ?env = "answering 200 ?body"
  let ?u = "\<lparr>Scheme = ''https'', Host = ''monitoringapi.solaredge.com'', Path = ''/equipment///data'',
           RawQuery = [], Fragment = []\<rparr>"
  have 1: "url_Parse ?env (equipmentURL init) = Some ?u" by (rule url_Parse_answering)
  have 2: "time_LoadLocation ?env (TimeZone init) = Some UTC" by (rule LoadLocation_init)
  have 3: "server ?env (request ?env init ?u UTC) = Answers \<lparr>StatusCode = 200, Location = None, Body = ?body\<rparr>"
    by (rule server_answering)
  have 4: "StatusCode \<lparr>StatusCode = 200, Location = None, Body = ?body\<rparr> = 200" by simp
  have 5: "json_Decode (Body \<lparr>StatusCode = 200, Location = None, Body = ?body\<rparr>) = Inr \<lparr>Data = \<lparr>Count = 1, Telemetries = [sample ''bad'']\<rparr>\<rparr>"
    by (simp add: decode_jsonResponse1)
  show ?thesis
    using Gather_decoded[OF 1 2 3 4 5, of "[]"]
    by (simp add: decode_jsonResponse1 sample_def parse_bad)
qed

text \<open>
  C1, amended. When the body decodes to two samples, the date of the first parses and the
  date of the second does not, the call returns the parse error of the second date, and
  the metric of the first sample has been added to the accumulator: one metric, not none.
\<close>
theorem metrics_before_bad_date:
  assumes "url_Parse env (equipmentURL s) = Some u"
    and "time_LoadLocation env (TimeZone s) = Some l"
    and "server env (request env s u l) = Answers resp"
    and "StatusCode resp = 200"
    and "json_Decode (Body resp) = Inr target"
    and "Telemetries (Data target) = [first, second]"
    and "time_ParseInLocation (Date first) l = Inr d"
    and "time_ParseInLocation (Date second) l = Inl e"
  shows "Gather env s acc =
      Some (Gather_client s,
            acc @ [\<lparr>measurement = Name s, fieldMap = telemetryFields (elapsed env) first,
                    tagMap = Map.empty, timestamp = d\<rparr>],
            Returned (Some (ParseError (Date second))))"
proof -
  have e: "e = ParseError (Date second)" using assms(8) by (rule parse_error_value)
  have loop: "Gather_loop (Name s) l (elapsed env) [first, second] acc =
      (acc @ [\<lparr>measurement = Name s, fieldMap = telemetryFields (elapsed env) first,
                    tagMap = Map.empty, timestamp = d\<rparr>], Some (ParseError (Date second)))"
    using assms(8) by (simp add: assms(7) e AddFields_def)
  from Gather_decoded[OF assms(1-5), of acc] show ?thesis
    by (simp only: assms(6) loop fst_conv snd_conv)
qed

theorem metrics_before_bad_date_witness:
  "Gather (answering 200 (Some (jsonResponse 2
        [jsonSample ''2024-01-01 00:00:00'', jsonSample ''2024-01-01T00:00:00'']))) init []
     = Some (Gather_client init,
         [\<lparr>measurement = [], fieldMap = telemetryFields (1 / 4) (sample ''2024-01-01 00:00:00''),
           tagMap = Map.empty, timestamp = \<lparr>unixSec = 1704067200, nsec = 0, loc = UTC\<rparr>\<rparr>],
         Returned (Some (ParseError ''2024-01-01T00:00:00'')))"
proof -
  let ?body = "Some (jsonResponse 2 [jsonSample ''2024-01-01 00:00:00'', jsonSample ''2024-01-01T00:00:00''])"
  let ?env = "answering 200 ?body"
  let ?u = "\<lparr>Scheme = ''https'', Host = ''monitoringapi.solaredge.com'', Path = ''/equipment///data'',
           RawQuery = [], Fragment = []\<rparr>"
  let ?target = "\<lparr>Data = \<lparr>Count = 2, Telemetries = [sample ''2024-01-01 00:00:00'', sample ''2024-01-01T00:00:00'']\<rparr>\<rparr>"
  have 1: "url_Parse ?env (equipmentURL init) = Some ?u" by (rule url_Parse_answering)
  have 2: "time_LoadLocation ?env (TimeZone init) = Some UTC" by (rule LoadLocation_init)
  have 3: "server ?env (request ?env init ?u UTC) = Answers \<lparr>StatusCode = 200, Location = None, Body = ?body\<rparr>"
    by (rule server_answering)
  have 4: "StatusCode \<lparr>StatusCode = 200, Location = None, Body = ?body\<rparr> = 200" by simp
  have 5: "json_Decode (Body \<lparr>StatusCode = 200, Location = None, Body = ?body\<rparr>) = Inr ?target"
    by (simp add: decode_jsonResponse2)
  have 6: "Telemetries (Data ?target) = [sample ''2024-01-01 00:00:00'', sample ''2024-01-01T00:00:00'']"
    by simp
  have 7: "time_ParseInLocation (Date (sample ''2024-01-01 00:00:00'')) UTC
      = Inr \<lparr>unixSec = 1704067200, nsec = 0, loc = UTC\<rparr>"
    by (simp add: sample_def parse_newyear)
  have 8: "time_ParseInLocation (Date (sample ''2024-01-01T00:00:00'')) UTC
      = Inl (ParseError ''2024-01-01T00:00:00'')"
    by (simp add: sample_def parse_defs)
  have el: "elapsed ?env = 1 / 4" by (simp add: answering_def env0_def)
  have nm: "Name init = []" by (simp add: init_def)
  show ?thesis
    using metrics_before_bad_date[OF 1 2 3 4 5 6 7 8, of "[]"]
    by (simp add: el nm sample_def)
qed

text \<open>
  C1, as it stands, fails: with a first date that parses and a second that does not, the
  accumulator has received the metric of the first sample when the error is returned.
\<close>
theorem one_metric_despite_bad_date:
  "Gather (answering 200 (Some (jsonResponse 2
        [jsonSample ''2024-01-01 00:00:00'', jsonSample ''bad'']))) init []
     = Some (Gather_client init,
         [\<lparr>measurement = [], fieldMap = telemetryFields (1 / 4) (sample ''2024-01-01 00:00:00''),
           tagMap = Map.empty, timestamp = \<lparr>unixSec = 1704067200, nsec = 0, loc = UTC\<rparr>\<rparr>],
         Returned (Some (ParseError ''bad'')))"
proof -
  let ?body = "Some (jsonResponse 2 [jsonSample ''2024-01-01 00:00:00'', jsonSample ''bad''])"
  let ?env = "answering 200 ?body"
  let ?u = "\<lparr>Scheme = ''https'', Host = ''monitoringapi.solaredge.com'', Path = ''/equipment///data'',
           RawQuery = [], Fragment = []\<rparr>"
  let ?target = "\<lparr>Data = \<lparr>Count = 2, Telemetries = [sample ''2024-01-01 00:00:00'', sample ''bad'']\<rparr>\<rparr>"
  have 1: "url_Parse ?env (equipmentURL init) = Some ?u" by (rule url_Parse_answering)
  have 2: "time_LoadLocation ?env (TimeZone init) = Some UTC" by (rule LoadLocation_init)
  have 3: "server ?env (request ?env init ?u UTC) = Answers \<lparr>StatusCode = 200, Location = None, Body = ?body\<rparr>"
    by (rule server_answering)
  have 4: "StatusCode \<lparr>StatusCode = 200, Location = None, Body = ?body\<rparr> = 200" by simp
  have 5: "json_Decode (Body \<lparr>StatusCode = 200, Location = None, Body = ?body\<rparr>) = Inr ?target"
    by (simp add: decode_jsonResponse2)
  have el: "elapsed ?env = 1 / 4" by (simp add: answering_def env0_def)
  have nm: "Name init = []" by (simp add: init_def)
  show ?thesis
    using Gather_decoded[OF 1 2 3 4 5, of "[]"]
    by (simp add: el nm sample_def parse_newyear parse_bad AddFields_def)
qed

text \<open>
  C8. A call that ends leaves every field of the collector but \<open>client\<close> as it was, and
  leaves \<open>client\<close> too as it was when it held an HTTP client already; over any number of
  calls the \<open>client\<close> field changes at most once.
\<close>
theorem only_client_changes:
  "(Gather env s acc = Some (s', acc', e) \<longrightarrow>
      s' = s\<lparr>client := client s'\<rparr> \<and> (HTTPClient (client s) \<noteq> None \<longrightarrow> s' = s))
   \<and> changes (client s) (Gather_calls s acc envs) \<le> 1"
proof -
  have frame: "Gather env s acc = Some (s', acc', e) \<longrightarrow>
      s' = s\<lparr>client := client s'\<rparr> \<and> (HTTPClient (client s) \<noteq> None \<longrightarrow> s' = s)"
  proof
    assume "Gather env s acc = Some (s', acc', e)"
    then have "s' = Gather_client s" by (rule Gather_collector)
    then show "s' = s\<lparr>client := client s'\<rparr> \<and> (HTTPClient (client s) \<noteq> None \<longrightarrow> s' = s)"
      using Gather_client_frame[of s] Gather_client_kept[of s] by simp
  qed
  have count: "changes (client s) (Gather_calls s acc envs) \<le> 1"
  proof (cases envs)
    case Nil
    then show ?thesis by simp
  next
    case (Cons env' rest)
    show ?thesis
    proof (cases "Gather env' s acc")
      case None
      then show ?thesis using Cons by simp
    next
      case (Some r)
      obtain s1 acc1 e1 where r: "r = (s1, acc1, e1)" by (cases r)
      have "s1 = Gather_client s" using Gather_collector[of env' s acc s1 acc1 e1] Some r by simp
      then have "HTTPClient (client s1) \<noteq> None" by (simp add: Gather_client_set)
      then have "changes (client s1) (Gather_calls s1 acc1 rest) = 0" by (rule changes_none)
      then show ?thesis using Cons Some r by simp
    qed
  qed
  from frame count show ?thesis by simp
qed

theorem only_client_changes_witness:
  "Gather env0 init [] = Some (Gather_client init, [], Returned None)
   \<and> Gather_client init = init\<lparr>client := client (Gather_client init)\<rparr>
   \<and> Gather env0 (Gather_client init) [] = Some (Gather_client init, [], Returned None)
   \<and> changes (client init) (Gather_calls init [] [env0, env0, env0]) \<le> 1"
proof -
  have tz: "TimeZone init = []" by (simp add: init_def)
  have 1: "Gather env0 init [] = Some (Gather_client init, [], Returned None)"
    by (rule Gather_env0[OF tz])
  have 2: "Gather env0 (Gather_client init) [] = Some (Gather_client (Gather_client init), [], Returned None)"
    by (rule Gather_env0) (simp add: tz)
  have 3: "HTTPClient (client (Gather_client init)) \<noteq> None" by (rule Gather_client_set)
  from only_client_changes[of env0 init "[]" "Gather_client init" "[]" "Returned None" "[env0, env0, env0]"]
    only_client_changes[of env0 "Gather_client init" "[]" "Gather_client (Gather_client init)" "[]" "Returned None" "[]"]
    1 2 3
  show ?thesis by simp
qed

text \<open>
  C2. The code at a zone name the database does not know: \<^verbatim>\<open>LoadLocation\<close> gives the nil
  location, and the call panics in \<^verbatim>\<open>Time.In\<close>; it does not go on in UTC.
\<close>
theorem unknown_zone_panics:
  "time_LoadLocation env0 ''Mars/Olympus'' = None
   \<and> Gather env0 (init\<lparr>TimeZone := ''Mars/Olympus''\<rparr>) []
       = Some (Gather_client (init\<lparr>TimeZone := ''Mars/Olympus''\<rparr>), [],
               Panicked ''time: missing Location in call to Time.In'')"
proof -
  have 1: "time_LoadLocation env0 ''Mars/Olympus'' = None"
    by (simp add: time_LoadLocation_def env0_def)
  have 2: "url_Parse env0 x \<noteq> None" for x by (simp add: env0_def)
  show ?thesis
    unfolding Gather_def Let_def using 2
    by (auto simp: 1 time_In_def split: option.splits)
qed

text \<open>
  C3. The code at a server that stays silent: the collector holds a client with both
  time-outs at five seconds, and a request through that client would fail with a
  time-out, but \<open>Gather\<close> sends the GET through \<^verbatim>\<open>http.Get\<close> and the call never returns.
\<close>
theorem get_without_timeout:
  "client (Gather_client init) =
      RealHTTPClient (Some \<lparr>Transport = Some \<lparr>ResponseHeaderTimeout = 5 * Second\<rparr>,
                            Timeout = 5 * Second\<rparr>)
   \<and> MakeRequest (client (Gather_client init)) (\<lambda>u. Silent) req
       = Inr (Some (Inl (TransportError ''timeout'')))
   \<and> Gather (env0\<lparr>server := (\<lambda>u. Silent)\<rparr>) init [] = None"
proof -
  have 1: "client (Gather_client init) =
      RealHTTPClient (Some \<lparr>Transport = Some \<lparr>ResponseHeaderTimeout = 5 * Second\<rparr>,
                            Timeout = 5 * Second\<rparr>)"
    by (simp add: Gather_client_def init_def)
  have 2: "MakeRequest (client (Gather_client init)) (\<lambda>u. Silent) req
       = Inr (Some (Inl (TransportError ''timeout'')))"
    by (simp add: 1 client_Do_silent hasTimeout_def Second_def)
  have f: "Gather_fetch (env0\<lparr>server := (\<lambda>u. Silent)\<rparr>) s' [] l r = None" for s' l r
    by (simp add: Gather_fetch_def http_Get_def client_Do_silent hasTimeout_def
        http_DefaultClient_def)
  have p: "url_Parse (env0\<lparr>server := (\<lambda>u. Silent)\<rparr>) x \<noteq> None" for x by (simp add: env0_def)
  have 3: "Gather (env0\<lparr>server := (\<lambda>u. Silent)\<rparr>) init [] = None"
    unfolding Gather_def Let_def using p
    by (auto simp: f time_In_def time_LoadLocation_def init_def Gather_client_def split: option.splits)
  from 1 2 3 show ?thesis by simp
qed

text \<open>
  C5, as it stands, fails twice. In New York the second 01:30 of 3 November 2024 is
  written like the first, an hour earlier, and is read back as the first; and the first
  instant of the year 10000 is written with a year of five digits, which the parser,
  taking exactly four, refuses.
\<close>
theorem roundtrip_fails:
  "time_ParseInLocation (time_Format \<lparr>unixSec = 1730615400, nsec = 0, loc = NewYork\<rparr>) NewYork
     = Inr \<lparr>unixSec = 1730611800, nsec = 0, loc = NewYork\<rparr>
   \<and> time_ParseInLocation (time_Format \<lparr>unixSec = 253402300800, nsec = 0, loc = UTC\<rparr>) UTC
     = Inl (ParseError ''10000-01-01 00:00:00'')"
  by (simp only: format_second_0130 parse_0130 format_year_10000 parse_year_10000)

text \<open>
  C5, amended. For a time whose year in its location is between 0 and 9999, the string
  \<^verbatim>\<open>Format\<close> writes is read back by \<^verbatim>\<open>ParseInLocation\<close> in the same location as the
  same time with the nanoseconds cut off exactly when the offset \<^verbatim>\<open>time.Date\<close> settles on
  for the wall clock reading is the offset of the time itself: the offset in use at the
  Unix second equal to the reading is that offset, or it is not zero, the instant it
  gives lies outside the interval in which it is in use, and the offset in use at that
  instant is the offset of the time.
\<close>
theorem format_parse_roundtrip:
  assumes "0 \<le> time_Year t" and "time_Year t \<le> 9999"
  shows "(time_ParseInLocation (time_Format t) (loc t) = Inr (t\<lparr>nsec := 0\<rparr>))
     = (case lookup (loc t) (time_abs t) of
          (off, start, fin) \<Rightarrow>
            off = zoneOffset (loc t) (unixSec t)
            \<or> (off \<noteq> 0 \<and> (time_abs t - off < start \<or> fin \<le> time_abs t - off)
                \<and> zoneOffset (loc t) (time_abs t - off) = zoneOffset (loc t) (unixSec t)))"
proof -
  define w where "w = time_abs t"
  obtain year month day where ad: "absDate (w div 86400 + 719162) = (year, month, day)"
    by (cases "absDate (w div 86400 + 719162)") auto
  have yr: "0 \<le> year" "year < 10000"
    using assms(1,2) unfolding time_Year_def w_def[symmetric] ad by simp_all
  from absDate_sound[OF ad] have md: "1 \<le> month" "month \<le> 12" "1 \<le> day" "day \<le> daysIn month year"
    by simp_all
  have "daysIn month year \<le> 31" using md(1,2)
    by (auto simp: daysIn_def daysBefore_def)
  then have dy: "0 \<le> day" "day < 100" using md(3,4) by simp_all
  let ?h = "w mod 86400 div 3600" and ?m = "w mod 86400 mod 3600 div 60" and ?s = "w mod 86400 mod 60"
  let ?clock = "appendInt ?h 2 @ '':'' @ appendInt ?m 2 @ '':'' @ appendInt ?s 2"
  have h100: "?h < 100" using clock_ranges(2)[of w] by simp
  have fmt: "time_Format t = appendInt year 4 @ ''-'' @ appendInt month 2 @ ''-''
      @ appendInt day 2 @ '' '' @ ?clock"
    unfolding time_Format_def Let_def w_def[symmetric] ad by simp
  have ck: "?clock \<noteq> []" "hd ?clock \<noteq> CHR '' ''"
    using appendInt_2_hd[OF clock_ranges(1)[of w] h100] by simp_all
  have cal: "parseCalendar (time_Format t) = Some (year, month, day, ?clock)"
    unfolding fmt by (rule parseCalendar_format[OF yr md(1,2) dy ck])
  have clk: "parseClock ?clock = Some (?h, ?m, ?s, 0)"
    by (rule parseClock_format[OF clock_ranges[of w]])
  have ws: "wallSeconds year month day ?h ?m ?s = unixSec t + zoneOffset (loc t) (unixSec t)"
    using wallSeconds_back[OF ad] unfolding w_def time_abs_def by simp
  have nd: "\<not> (day < 1 \<or> day > daysIn month year)" using md(3,4) by simp
  have parsed: "time_ParseInLocation (time_Format t) (loc t)
      = Inr (time_Date year month day ?h ?m ?s 0 (loc t))"
    unfolding time_ParseInLocation_def
    by (simp only: cal clk option.case prod.case nd if_False)
  obtain off start fin where lk: "lookup (loc t) (time_abs t) = (off, start, fin)"
    by (cases "lookup (loc t) (time_abs t)") auto
  then have lk': "lookup (loc t) (unixSec t + zoneOffset (loc t) (unixSec t)) = (off, start, fin)"
    unfolding time_abs_def .
  have t0: "t\<lparr>nsec := 0\<rparr> = \<lparr>unixSec = unixSec t, nsec = 0, loc = loc t\<rparr>" by simp
  show ?thesis
    unfolding parsed lk t0 prod.case sum.inject time_Date_settles[OF ws lk']
    unfolding time_abs_def ..
qed

theorem format_parse_roundtrip_witness:
  "time_Year \<lparr>unixSec = 1710055800, nsec = 5, loc = NewYork\<rparr> = 2024
   \<and> lookup NewYork (time_abs \<lparr>unixSec = 1710055800, nsec = 5, loc = NewYork\<rparr>)
       = (- 18000, alpha, 1710054000)
   \<and> zoneOffset NewYork 1710055800 = - 14400
   \<and> zoneOffset NewYork (time_abs \<lparr>unixSec = 1710055800, nsec = 5, loc = NewYork\<rparr> - - 18000)
       = - 14400
   \<and> time_Format \<lparr>unixSec = 1710055800, nsec = 5, loc = NewYork\<rparr> = ''2024-03-10 03:30:00''
   \<and> time_ParseInLocation (time_Format \<lparr>unixSec = 1710055800, nsec = 5, loc = NewYork\<rparr>) NewYork
       = Inr \<lparr>unixSec = 1710055800, nsec = 0, loc = NewYork\<rparr>"
proof -
  let ?t = "\<lparr>unixSec = 1710055800, nsec = 5, loc = NewYork\<rparr>"
  have w: "time_abs ?t = 1710041400"
    by (simp add: time_abs_def zoneOffset_def lookup_def NewYork_def)
  have yd: "yearDay 738954 = (2024, 69)" unfolding yearDay_def Let_def by simp
  have md: "monthDay (isLeap 2024) 69 = (3, 10)"
    unfolding monthDay_def Let_def by (simp add: isLeap_def daysBefore_def)
  have ad: "absDate (1710041400 div 86400 + 719162) = (2024, 3, 10)"
    using absDate_eval[OF yd md] by simp
  have y: "time_Year ?t = 2024" unfolding time_Year_def w ad by simp
  have lk: "lookup NewYork (time_abs ?t) = (- 18000, alpha, 1710054000)"
    unfolding w by (simp add: lookup_def NewYork_def)
  have z1: "zoneOffset NewYork 1710055800 = - 14400"
    by (simp add: zoneOffset_def lookup_def NewYork_def)
  have z2: "zoneOffset NewYork (time_abs ?t - - 18000) = - 14400"
    unfolding w by (simp add: zoneOffset_def lookup_def NewYork_def)
  have f: "time_Format ?t = ''2024-03-10 03:30:00''"
    unfolding time_Format_eval[OF w ad] by (simp add: appendInt_eval)
  have 1: "0 \<le> time_Year ?t" and 2: "time_Year ?t \<le> 9999" by (simp_all add: y)
  have c: "(case lookup (loc ?t) (time_abs ?t) of
          (off, start, fin) \<Rightarrow>
            off = zoneOffset (loc ?t) (unixSec ?t)
            \<or> (off \<noteq> 0 \<and> (time_abs ?t - off < start \<or> fin \<le> time_abs ?t - off)
                \<and> zoneOffset (loc ?t) (time_abs ?t - off) = zoneOffset (loc ?t) (unixSec ?t)))"
  proof -
    have lk': "lookup NewYork 1710041400 = (- 18000, alpha, 1710054000)"
      using lk unfolding w .
    have z2': "zoneOffset NewYork 1710059400 = - 14400" using z2 unfolding w by simp
    show ?thesis by (simp add: w lk' z1 z2')
  qed
  from format_parse_roundtrip[OF 1 2] c
  have "time_ParseInLocation (time_Format ?t) (loc ?t) = Inr (?t\<lparr>nsec := 0\<rparr>)" by blast
  then show ?thesis using y lk z1 z2 f by simp
qed

text \<open>
  C6, as it stands, fails: a server that answers 302 with a \<^verbatim>\<open>Location\<close> has given a
  response whose status is not 200, yet \<^verbatim>\<open>http.Get\<close> requests the new URL, and when
  that answers 200 with one sample the call returns nil and has added the metric.
\<close>
theorem redirect_is_followed:
  "server (redirecting 302 (Some (jsonResponse 1 [jsonSample ''2024-01-01 00:00:00''])))
      (request (redirecting 302 (Some (jsonResponse 1 [jsonSample ''2024-01-01 00:00:00''])))
         init \<lparr>Scheme = ''https'', Host = ''monitoringapi.solaredge.com'',
               Path = ''/equipment///data'', RawQuery = [], Fragment = []\<rparr> UTC)
     = Answers \<lparr>StatusCode = 302,
         Location = Some ((request (redirecting 302 (Some (jsonResponse 1 [jsonSample ''2024-01-01 00:00:00''])))
             init \<lparr>Scheme = ''https'', Host = ''monitoringapi.solaredge.com'',
               Path = ''/equipment///data'', RawQuery = [], Fragment = []\<rparr> UTC)
               \<lparr>Host := ''example.org''\<rparr>),
         Body = None\<rparr>
   \<and> Gather (redirecting 302 (Some (jsonResponse 1 [jsonSample ''2024-01-01 00:00:00'']))) init []
     = Some (Gather_client init,
         [\<lparr>measurement = [], fieldMap = telemetryFields (1 / 4) (sample ''2024-01-01 00:00:00''),
           tagMap = Map.empty, timestamp = \<lparr>unixSec = 1704067200, nsec = 0, loc = UTC\<rparr>\<rparr>],
         Returned None)"
proof -
  let ?body = "Some (jsonResponse 1 [jsonSample ''2024-01-01 00:00:00''])"
  let ?env = "redirecting 302 ?body"
  let ?u = "\<lparr>Scheme = ''https'', Host = ''monitoringapi.solaredge.com'', Path = ''/equipment///data'',
           RawQuery = [], Fragment = []\<rparr>"
  let ?resp = "\<lparr>StatusCode = 200, Location = None, Body = ?body\<rparr>"
  have 1: "url_Parse ?env (equipmentURL init) = Some ?u"
    by (simp add: redirecting_def env0_def equipmentURL_def init_def serverURL_def)
  have 2: "time_LoadLocation ?env (TimeZone init) = Some UTC" by (rule LoadLocation_init)
  have h: "Host (request ?env init ?u UTC) \<noteq> ''example.org''" by simp
  have a: "server ?env (request ?env init ?u UTC)
     = Answers \<lparr>StatusCode = 302, Location = Some ((request ?env init ?u UTC)\<lparr>Host := ''example.org''\<rparr>),
         Body = None\<rparr>"
    using h by (simp add: redirecting_def)
  have g: "http_Get (server ?env) (request ?env init ?u UTC) = Some (Inr ?resp)"
    by (rule http_Get_redirecting[OF h]) (simp add: shouldRedirect_def)
  have d: "json_Decode (Body ?resp) = Inr \<lparr>Data = \<lparr>Count = 1, Telemetries = [sample ''2024-01-01 00:00:00'']\<rparr>\<rparr>"
    by (simp add: decode_jsonResponse1)
  have el: "elapsed ?env = 1 / 4" by (simp add: redirecting_def env0_def)
  have nm: "Name (Gather_client init) = []" by (simp add: init_def Gather_client_def)
  have "Gather ?env init [] = Gather_fetch ?env (Gather_client init) [] UTC (request ?env init ?u UTC)"
    by (rule Gather_located) (simp_all add: 1 2)
  also have "\<dots> = Some (Gather_client init,
         [\<lparr>measurement = [], fieldMap = telemetryFields (1 / 4) (sample ''2024-01-01 00:00:00''),
           tagMap = Map.empty, timestamp = \<lparr>unixSec = 1704067200, nsec = 0, loc = UTC\<rparr>\<rparr>],
         Returned None)"
    unfolding Gather_fetch_got[OF g _ d, simplified]
    by (simp add: el nm sample_def parse_newyear AddFields_def)
  finally show ?thesis using a by simp
qed

text \<open>
  C6, amended. When the response that \<^verbatim>\<open>http.Get\<close> hands back (the answer of the server,
  or the last answer after the redirects \<^verbatim>\<open>http.Get\<close> follows) has a status other than
  200, the call returns the status error with the status received and 200, and adds no
  metric; the body of the response does not occur in the result, whatever it is.
\<close>
theorem status_not_200:
  assumes "url_Parse env (equipmentURL s) = Some u"
    and "time_LoadLocation env (TimeZone s) = Some l"
    and "http_Get (server env) (request env s u l) = Some (Inr resp)"
    and "StatusCode resp \<noteq> 200"
  shows "Gather env s acc =
      Some (Gather_client s, acc,
            Returned (Some (UnexpectedStatus (request env s u l) (StatusCode resp) 200)))"
proof -
  have "Gather env s acc = Gather_fetch env (Gather_client s) acc l (request env s u l)"
    using assms(1,2) by (simp add: Gather_located)
  also have "\<dots> = Some (Gather_client s, acc,
      Returned (Some (UnexpectedStatus (request env s u l) (StatusCode resp) 200)))"
    unfolding Gather_fetch_def by (simp add: assms(3,4))
  finally show ?thesis .
qed

theorem status_not_200_witness:
  "http_Get (server (answering 503 (Some (jsonResponse 1 [jsonSample ''2024-01-01 00:00:00'']))))
      (request (answering 503 (Some (jsonResponse 1 [jsonSample ''2024-01-01 00:00:00''])))
              init \<lparr>Scheme = ''https'', Host = ''monitoringapi.solaredge.com'',
                    Path = ''/equipment///data'', RawQuery = [], Fragment = []\<rparr> UTC)
     = Some (Inr \<lparr>StatusCode = 503, Location = None,
                  Body = Some (jsonResponse 1 [jsonSample ''2024-01-01 00:00:00''])\<rparr>)
   \<and> Gather (answering 503 (Some (jsonResponse 1 [jsonSample ''2024-01-01 00:00:00'']))) init []
     = Some (Gather_client init, [],
         Returned (Some (UnexpectedStatus
           (request (answering 503 (Some (jsonResponse 1 [jsonSample ''2024-01-01 00:00:00''])))
              init \<lparr>Scheme = ''https'', Host = ''monitoringapi.solaredge.com'',
                    Path = ''/equipment///data'', RawQuery = [], Fragment = []\<rparr> UTC)
           503 200)))"
proof -
  let ?body = "Some (jsonResponse 1 [jsonSample ''2024-01-01 00:00:00''])"
  let ?env = "answering 503 ?body"
  let ?u = "\<lparr>Scheme = ''https'', Host = ''monitoringapi.solaredge.com'', Path = ''/equipment///data'',
           RawQuery = [], Fragment = []\<rparr>"
  let ?resp = "\<lparr>StatusCode = 503, Location = None, Body = ?body\<rparr>"
  have 1: "url_Parse ?env (equipmentURL init) = Some ?u" by (rule url_Parse_answering)
  have 2: "time_LoadLocation ?env (TimeZone init) = Some UTC" by (rule LoadLocation_init)
  have 3: "http_Get (server ?env) (request ?env init ?u UTC) = Some (Inr ?resp)"
    unfolding http_Get_def
    by (rule client_Do_answer) (simp_all add: server_answering shouldRedirect_def)
  have 4: "StatusCode ?resp \<noteq> 200" by simp
  show ?thesis using status_not_200[OF 1 2 3 4, of "[]"] 3 by simp
qed

text \<open>
  C4. When the URL parses and the location loads, the call goes on with the request
  whose query is the encoding of the parameters: \<open>startTime\<close> has received the window's
  start and \<open>endTime\<close> its end, each written by \<^verbatim>\<open>Format\<close> in the location, and the
  query string holds \<^verbatim>\<open>startTime=\<close> and \<^verbatim>\<open>endTime=\<close> followed by the two escaped; the
  end is the present instant and the start is the instant 144 hours of nanoseconds
  before it.
\<close>
theorem request_window:
  assumes "url_Parse env (equipmentURL s) = Some u"
    and "time_LoadLocation env (TimeZone s) = Some l"
    and "endTime = (now env)\<lparr>loc := l\<rparr>"
    and "startTime = time_Add endTime (- (6 * 24 * Hour))"
  shows "Gather env s acc = Gather_fetch env (Gather_client s) acc l (request env s u l)
    \<and> (\<exists>pre post. RawQuery (request env s u l)
          = pre @ ''startTime='' @ QueryEscape (time_Format startTime) @ post)
    \<and> (\<exists>pre post. RawQuery (request env s u l)
          = pre @ ''endTime='' @ QueryEscape (time_Format endTime) @ post)
    \<and> (\<exists>params. RawQuery (request env s u l) = Values_Encode params
          \<and> Values_lookup params ''startTime''
               = Values_lookup (url_Query env u) ''startTime'' @ [time_Format startTime]
          \<and> Values_lookup params ''endTime''
               = Values_lookup (url_Query env u) ''endTime'' @ [time_Format endTime])
    \<and> time_UnixNano endTime = time_UnixNano (now env)
    \<and> time_UnixNano startTime = time_UnixNano endTime - 144 * 3600 * 1000000000
    \<and> loc startTime = l \<and> loc endTime = l"
proof -
  let ?p = "Values_Add (Values_Add (Values_Add (url_Query env u) ''api_key'' (APIKey (Gather_client s)))
              ''startTime'' (time_Format startTime)) ''endTime'' (time_Format endTime)"
  have 1: "Gather env s acc = Gather_fetch env (Gather_client s) acc l (request env s u l)"
    by (rule Gather_located[OF _ assms(2)]) (simp add: assms(1))
  have 2: "RawQuery (request env s u l) = Values_Encode ?p"
    unfolding Gather_request_def Let_def assms(3,4) by simp
  have 3: "Values_lookup ?p ''startTime''
      = Values_lookup (url_Query env u) ''startTime'' @ [time_Format startTime]"
    by (simp add: Values_lookup_Add_same Values_lookup_Add_other)
  have 4: "Values_lookup ?p ''endTime''
      = Values_lookup (url_Query env u) ''endTime'' @ [time_Format endTime]"
    by (simp add: Values_lookup_Add_same Values_lookup_Add_other)
  have 5: "time_UnixNano endTime = time_UnixNano (now env)"
    by (simp add: assms(3) time_UnixNano_def)
  have 6: "time_UnixNano startTime = time_UnixNano endTime - 144 * 3600 * 1000000000"
    unfolding assms(4) time_UnixNano_Add by (simp add: Hour_def Second_def)
  have 7: "loc startTime = l" "loc endTime = l"
    by (simp_all add: assms(3,4) loc_time_Add)
  have 8: "\<exists>pre post. RawQuery (request env s u l)
          = pre @ ''startTime='' @ QueryEscape (time_Format startTime) @ post"
    using Values_Encode_contains[of "time_Format startTime" ?p "''startTime''"]
    unfolding 2 3 by (simp add: escape_keys)
  have 9: "\<exists>pre post. RawQuery (request env s u l)
          = pre @ ''endTime='' @ QueryEscape (time_Format endTime) @ post"
    using Values_Encode_contains[of "time_Format endTime" ?p "''endTime''"]
    unfolding 2 4 by (simp add: escape_keys)
  from 2 3 4 have 10: "\<exists>params. RawQuery (request env s u l) = Values_Encode params
          \<and> Values_lookup params ''startTime''
               = Values_lookup (url_Query env u) ''startTime'' @ [time_Format startTime]
          \<and> Values_lookup params ''endTime''
               = Values_lookup (url_Query env u) ''endTime'' @ [time_Format endTime]"
    by blast
  from 1 8 9 10 5 6 7 show ?thesis by simp
qed

theorem request_window_witness:
  "url_Parse env0 (equipmentURL init)
     = Some \<lparr>Scheme = ''https'', Host = ''monitoringapi.solaredge.com'',
             Path = ''/equipment///data'', RawQuery = [], Fragment = []\<rparr>
   \<and> time_LoadLocation env0 (TimeZone init) = Some UTC
   \<and> Gather env0 init []
       = Gather_fetch env0 (Gather_client init) [] UTC
           (request env0 init \<lparr>Scheme = ''https'', Host = ''monitoringapi.solaredge.com'',
                                 Path = ''/equipment///data'', RawQuery = [], Fragment = []\<rparr> UTC)
   \<and> RawQuery (request env0 init \<lparr>Scheme = ''https'', Host = ''monitoringapi.solaredge.com'',
                                 Path = ''/equipment///data'', RawQuery = [], Fragment = []\<rparr> UTC)
       = ''api_key=&endTime=2024-01-01+00%3A00%3A00&startTime=2023-12-26+00%3A00%3A00''
   \<and> time_UnixNano (time_Add ((now env0)\<lparr>loc := UTC\<rparr>) (- (6 * 24 * Hour)))
       = time_UnixNano ((now env0)\<lparr>loc := UTC\<rparr>) - 144 * 3600 * 1000000000"
proof -
  let ?u = "\<lparr>Scheme = ''https'', Host = ''monitoringapi.solaredge.com'',
             Path = ''/equipment///data'', RawQuery = [], Fragment = []\<rparr>"
  have 1: "url_Parse env0 (equipmentURL init) = Some ?u"
    by (simp add: env0_def equipmentURL_def init_def serverURL_def)
  have 2: "time_LoadLocation env0 (TimeZone init) = Some UTC" by (rule LoadLocation_init)
  have n: "(now env0)\<lparr>loc := UTC\<rparr> = \<lparr>unixSec = 1704067200, nsec = 7, loc = UTC\<rparr>"
    by (simp add: env0_def)
  have q: "url_Query env0 ?u = []" by (simp add: env0_def)
  have k: "APIKey (Gather_client init) = []" by (simp add: Gather_client_def init_def)
  have r: "RawQuery (request env0 init ?u UTC)
       = ''api_key=&endTime=2024-01-01+00%3A00%3A00&startTime=2023-12-26+00%3A00%3A00''"
    unfolding Gather_request_def Let_def n window_start format_newyear format_boxing_day q k
    by (simp add: encode_window)
  from request_window[OF 1 2 refl refl, of "[]"] 1 2 r show ?thesis by simp
qed

text \<open>
  C9, as it stands, fails: the body \<^verbatim>\<open>{"data": 5}\<close> is a JSON object, and decoding it
  is an error, which the call returns.
\<close>
theorem wrong_type_is_an_error:
  "json_Decode (Some (JObject [(''data'', JNumber (Some 5) (Some 5))]))
     = Inl (UnmarshalTypeError ''number'' ''struct'')
   \<and> Gather (answering 200 (Some (JObject [(''data'', JNumber (Some 5) (Some 5))]))) init []
     = Some (Gather_client init, [], Returned (Some (UnmarshalTypeError ''number'' ''struct'')))"
proof -
  let ?body = "Some (JObject [(''data'', JNumber (Some 5) (Some 5))])"
  let ?env = "answering 200 ?body"
  let ?u = "\<lparr>Scheme = ''https'', Host = ''monitoringapi.solaredge.com'', Path = ''/equipment///data'',
           RawQuery = [], Fragment = []\<rparr>"
  let ?resp = "\<lparr>StatusCode = 200, Location = None, Body = ?body\<rparr>"
  have d: "json_Decode ?body = Inl (UnmarshalTypeError ''number'' ''struct'')"
    by (simp add: json_Decode_def decode_Equipment_def field_Equipment_def selects_refl
        decode_Data_def saveError_def)
  have 1: "url_Parse ?env (equipmentURL init) = Some ?u" by (rule url_Parse_answering)
  have 2: "time_LoadLocation ?env (TimeZone init) = Some UTC" by (rule LoadLocation_init)
  have g: "http_Get (server ?env) (request ?env init ?u UTC) = Some (Inr ?resp)"
    unfolding http_Get_def
    by (rule client_Do_answer) (simp_all add: server_answering shouldRedirect_def)
  have "Gather ?env init [] = Gather_fetch ?env (Gather_client init) [] UTC (request ?env init ?u UTC)"
    by (rule Gather_located) (simp_all add: 1 2)
  also have "\<dots> = Some (Gather_client init, [], Returned (Some (UnmarshalTypeError ''number'' ''struct'')))"
    by (rule Gather_fetch_undecoded[OF g]) (simp_all add: d)
  finally show ?thesis using d by simp
qed

text \<open>
  C9, amended. A JSON object body decodes without an error exactly when it conforms to
  the shape of \<^verbatim>\<open>Equipment\<close>: every value under a key that selects a field is \<^verbatim>\<open>null\<close> or
  has the JSON type of the field, at every level; no key has to be there. The empty
  object decodes to the response with count 0 and no samples, and a call that receives
  it with status 200 adds no metric and returns nil.
\<close>
theorem absent_keys_are_no_error:
  "((\<exists>target. json_Decode (Some (JObject kvs)) = Inr target)
       = conforms shape_Equipment (JObject kvs))
   \<and> json_Decode (Some (JObject [])) = Inr \<lparr>Data = \<lparr>Count = 0, Telemetries = []\<rparr>\<rparr>
   \<and> (url_Parse env (equipmentURL s) = Some u \<and> time_LoadLocation env (TimeZone s) = Some l
        \<and> http_Get (server env) (request env s u l) = Some (Inr resp)
        \<and> StatusCode resp = 200 \<and> Body resp = Some (JObject [])
      \<longrightarrow> Gather env s acc = Some (Gather_client s, acc, Returned None))"
proof -
  have e: "json_Decode (Some (JObject [])) = Inr \<lparr>Data = \<lparr>Count = 0, Telemetries = []\<rparr>\<rparr>"
    by (simp add: decode_empty_object zero_Equipment_def zero_Data_def)
  have c: "Gather env s acc = Some (Gather_client s, acc, Returned None)"
    if h: "url_Parse env (equipmentURL s) = Some u" "time_LoadLocation env (TimeZone s) = Some l"
      "http_Get (server env) (request env s u l) = Some (Inr resp)"
      "StatusCode resp = 200" "Body resp = Some (JObject [])"
  proof -
    have d: "json_Decode (Body resp) = Inr \<lparr>Data = \<lparr>Count = 0, Telemetries = []\<rparr>\<rparr>"
      unfolding h(5) by (rule e)
    have "Gather env s acc = Gather_fetch env (Gather_client s) acc l (request env s u l)"
      using h(1,2) by (simp add: Gather_located)
    also have "\<dots> = Some (Gather_client s, acc, Returned None)"
      unfolding Gather_fetch_got[OF h(3,4) d] by simp
    finally show ?thesis .
  qed
  from json_Decode_iff[of "JObject kvs"] e c show ?thesis by blast
qed

theorem absent_keys_are_no_error_witness:
  "conforms shape_Equipment
      (JObject [(''data'', JObject [(''telemetries'', JArray [jsonSample ''2024-01-01 00:00:00''])])])
   \<and> json_Decode (Some
        (JObject [(''data'', JObject [(''telemetries'', JArray [jsonSample ''2024-01-01 00:00:00''])])]))
       = Inr \<lparr>Data = \<lparr>Count = 0, Telemetries = [sample ''2024-01-01 00:00:00'']\<rparr>\<rparr>
   \<and> json_Decode (Some (JObject [])) = Inr \<lparr>Data = \<lparr>Count = 0, Telemetries = []\<rparr>\<rparr>
   \<and> http_Get (server env0)
        (request env0 init \<lparr>Scheme = ''https'', Host = ''monitoringapi.solaredge.com'',
                              Path = ''/equipment///data'', RawQuery = [], Fragment = []\<rparr> UTC)
       = Some (Inr \<lparr>StatusCode = 200, Location = None, Body = Some (JObject [])\<rparr>)
   \<and> Gather env0 init [] = Some (Gather_client init, [], Returned None)"
proof -
  let ?b = "JObject [(''data'', JObject [(''telemetries'', JArray [jsonSample ''2024-01-01 00:00:00''])])]"
  let ?u = "\<lparr>Scheme = ''https'', Host = ''monitoringapi.solaredge.com'', Path = ''/equipment///data'',
           RawQuery = [], Fragment = []\<rparr>"
  let ?resp = "\<lparr>StatusCode = 200, Location = None, Body = Some (JObject [])\<rparr>"
  have c: "conforms shape_Equipment ?b"
    by (simp add: shape_Equipment_def shape_Data_def shape_Telemetry_def shape_L1Data_def
        jsonSample_def selects_iff fold_Data fold_Telemetry del: foldName.simps)
  have d: "json_Decode (Some ?b)
       = Inr \<lparr>Data = \<lparr>Count = 0, Telemetries = [sample ''2024-01-01 00:00:00'']\<rparr>\<rparr>"
    by (simp add: json_Decode_def decode_Equipment_def field_Equipment_def
      decode_Data_def field_Data_def selects_refl not_telemetries_count decode_jsonSample
      zero_Equipment_def zero_Data_def saveError_def)
  have 1: "url_Parse env0 (equipmentURL init) = Some ?u"
    by (simp add: env0_def equipmentURL_def init_def serverURL_def)
  have 2: "time_LoadLocation env0 (TimeZone init) = Some UTC" by (rule LoadLocation_init)
  have 3: "http_Get (server env0) (request env0 init ?u UTC) = Some (Inr ?resp)"
    unfolding http_Get_def
    by (rule client_Do_answer) (simp_all add: env0_def shouldRedirect_def)
  from absent_keys_are_no_error[of "[(''data'', JObject [(''telemetries'', JArray [jsonSample ''2024-01-01 00:00:00''])])]"
      env0 init ?u UTC ?resp "[]"] c d 1 2 3
  show ?thesis by simp
qed

end
